theory Spec2Isabelle
  imports Complex_Main "HOL-Library.AList"
begin

section \<open>Calendar arithmetic of the host's Date object\<close>

text \<open>
  \<^verbatim>\<open>App.jsx\<close> computes every date through the built-in \<^verbatim>\<open>Date\<close> object. Its
  operations are embedded here as ECMA-262 (section "Date Objects") defines them, over
  time values in milliseconds since the epoch. The local time zone is a fixed offset
  \<open>tza\<close> in milliseconds (local time = UTC + \<open>tza\<close>); daylight-saving changes are not
  modelled. A Date whose time value is NaN ("Invalid Date") is \<open>None\<close>.
\<close>

definition msPerDay :: int where
  "msPerDay = 86400000"

definition Day :: "int \<Rightarrow> int" where
  "Day t = t div msPerDay"

definition TimeWithinDay :: "int \<Rightarrow> int" where
  "TimeWithinDay t = t mod msPerDay"

definition DaysInYear :: "int \<Rightarrow> int" where
  "DaysInYear y =
     (if y mod 4 \<noteq> 0 then 365
      else if y mod 100 \<noteq> 0 then 366
      else if y mod 400 \<noteq> 0 then 365
      else 366)"

definition DayFromYear :: "int \<Rightarrow> int" where
  "DayFromYear y =
     365 * (y - 1970) + (y - 1969) div 4 - (y - 1901) div 100 + (y - 1601) div 400"

text \<open>
  \<^verbatim>\<open>YearFromTime(t)\<close> is "the largest integer y such that TimeFromYear(y) \<le> t". It is
  computed by a search from an estimate: downwards to a year that starts no later than
  the day, then upwards to the last such year.
\<close>

function year_down :: "int \<Rightarrow> int \<Rightarrow> int" where
  "year_down d y = (if DayFromYear y \<le> d then y else year_down d (y - 1))"
  by pat_completeness auto

function year_up :: "int \<Rightarrow> int \<Rightarrow> int" where
  "year_up d y = (if d < DayFromYear (y + 1) then y else year_up d (y + 1))"
  by pat_completeness auto

lemma div_succ:
  fixes x n :: int
  assumes "0 < n"
  shows "(x + 1) div n = x div n + (if (x + 1) mod n = 0 then 1 else 0)"
proof -
  define q r where "q = x div n" and "r = x mod n"
  have x: "x = n * q + r" and r: "0 \<le> r" "r < n"
    using assms by (simp_all add: q_def r_def)
  show ?thesis
  proof (cases "r + 1 = n")
    case True
    then have "x + 1 = n * (q + 1)" using x by (simp add: algebra_simps)
    then show ?thesis using assms q_def by simp
  next
    case False
    then have lt: "r + 1 < n" using r by simp
    have e: "x + 1 = q * n + (r + 1)" using x by (simp add: algebra_simps)
    have "(x + 1) div n = q" unfolding e using lt r by (simp add: div_pos_pos_trivial)
    moreover have "(x + 1) mod n = r + 1"
      unfolding e using lt r by (simp add: mod_pos_pos_trivial)
    ultimately show ?thesis using r q_def by simp
  qed
qed

lemma mod_shift: "((y::int) - k * n) mod n = y mod n"
  by (metis mod_mult_self1 diff_add_cancel)

lemma mod_400_100: "(y::int) mod 400 = 0 \<Longrightarrow> y mod 100 = 0"
proof -
  assume "y mod 400 = 0"
  then have "400 dvd y" by (simp add: mod_eq_0_iff_dvd)
  moreover have "(100::int) dvd 400" by simp
  ultimately have "100 dvd y" by (rule dvd_trans [rotated])
  then show ?thesis by (simp add: mod_eq_0_iff_dvd)
qed

lemma mod_100_4: "(y::int) mod 100 = 0 \<Longrightarrow> y mod 4 = 0"
proof -
  assume "y mod 100 = 0"
  then have "100 dvd y" by (simp add: mod_eq_0_iff_dvd)
  moreover have "(4::int) dvd 100" by simp
  ultimately have "4 dvd y" by (rule dvd_trans [rotated])
  then show ?thesis by (simp add: mod_eq_0_iff_dvd)
qed

lemma DayFromYear_step: "DayFromYear (y + 1) = DayFromYear y + DaysInYear y"
proof -
  have a: "(y + 1 - 1969) div 4 = (y - 1969) div 4 + (if y mod 4 = 0 then 1 else 0)"
    using div_succ [of 4 "y - 1969"] mod_shift [of y 492 4] by (simp add: algebra_simps)
  have b: "(y + 1 - 1901) div 100 = (y - 1901) div 100 + (if y mod 100 = 0 then 1 else 0)"
    using div_succ [of 100 "y - 1901"] mod_shift [of y 19 100] by (simp add: algebra_simps)
  have c: "(y + 1 - 1601) div 400 = (y - 1601) div 400 + (if y mod 400 = 0 then 1 else 0)"
    using div_succ [of 400 "y - 1601"] mod_shift [of y 4 400] by (simp add: algebra_simps)
  show ?thesis
    unfolding DayFromYear_def DaysInYear_def a b c
    using mod_400_100 [of y] mod_100_4 [of y] by auto
qed

lemma DaysInYear_bounds: "365 \<le> DaysInYear y" "DaysInYear y \<le> 366"
  by (simp_all add: DaysInYear_def)

lemma DayFromYear_less_Suc: "DayFromYear y < DayFromYear (y + 1)"
  using DayFromYear_step [of y] DaysInYear_bounds(1) [of y] by linarith

lemma DayFromYear_pred_less: "DayFromYear (y - 1) < DayFromYear y"
  using DayFromYear_less_Suc [of "y - 1"] by simp

termination year_down
proof (relation "measure (\<lambda>(d, y). nat (DayFromYear y - d))")
  show "wf (measure (\<lambda>(d, y). nat (DayFromYear y - d)))" by simp
next
  fix d y :: int
  assume "\<not> DayFromYear y \<le> d"
  then show "((d, y - 1), (d, y)) \<in> measure (\<lambda>(d, y). nat (DayFromYear y - d))"
    using DayFromYear_pred_less [of y] by simp
qed

termination year_up
proof (relation "measure (\<lambda>(d, y). nat (d + 1 - DayFromYear y))")
  show "wf (measure (\<lambda>(d, y). nat (d + 1 - DayFromYear y)))" by simp
next
  fix d y :: int
  assume "\<not> d < DayFromYear (y + 1)"
  then show "((d, y + 1), (d, y)) \<in> measure (\<lambda>(d, y). nat (d + 1 - DayFromYear y))"
    using DayFromYear_less_Suc [of y] by simp
qed

declare year_down.simps [simp del] year_up.simps [simp del]

definition YearFromTime :: "int \<Rightarrow> int" where
  "YearFromTime t = (let d = Day t in year_up d (year_down d (1970 + d div 365)))"

definition InLeapYear :: "int \<Rightarrow> int" where
  "InLeapYear t = (if DaysInYear (YearFromTime t) = 366 then 1 else 0)"

definition DayWithinYear :: "int \<Rightarrow> int" where
  "DayWithinYear t = Day t - DayFromYear (YearFromTime t)"

definition MonthFromTime :: "int \<Rightarrow> int" where
  "MonthFromTime t =
     (let d = DayWithinYear t; l = InLeapYear t in
      if d < 31 then 0
      else if d < 59 + l then 1
      else if d < 90 + l then 2
      else if d < 120 + l then 3
      else if d < 151 + l then 4
      else if d < 181 + l then 5
      else if d < 212 + l then 6
      else if d < 243 + l then 7
      else if d < 273 + l then 8
      else if d < 304 + l then 9
      else if d < 334 + l then 10
      else 11)"

definition DateFromTime :: "int \<Rightarrow> int" where
  "DateFromTime t =
     (let d = DayWithinYear t; l = InLeapYear t; m = MonthFromTime t in
      if m = 0 then d + 1
      else if m = 1 then d - 30
      else if m = 2 then d - 58 - l
      else if m = 3 then d - 89 - l
      else if m = 4 then d - 119 - l
      else if m = 5 then d - 150 - l
      else if m = 6 then d - 180 - l
      else if m = 7 then d - 211 - l
      else if m = 8 then d - 242 - l
      else if m = 9 then d - 272 - l
      else if m = 10 then d - 303 - l
      else d - 333 - l)"

definition WeekDay :: "int \<Rightarrow> int" where
  "WeekDay t = (Day t + 4) mod 7"

definition HourFromTime :: "int \<Rightarrow> int" where
  "HourFromTime t = (t div 3600000) mod 24"

definition MinFromTime :: "int \<Rightarrow> int" where
  "MinFromTime t = (t div 60000) mod 60"

definition SecFromTime :: "int \<Rightarrow> int" where
  "SecFromTime t = (t div 1000) mod 60"

definition msFromTime :: "int \<Rightarrow> int" where
  "msFromTime t = t mod 1000"

text \<open>
  \<^verbatim>\<open>MakeDay(year, month, date)\<close> normalises the month into the year and counts from the
  first day of that month, so a date of 0 or below, or beyond the month's end, runs
  into the neighbouring months. \<open>monthStart\<close> is the day within the year on which a
  month begins, the lower bounds of \<^verbatim>\<open>MonthFromTime\<close>.
\<close>

definition monthStart :: "int \<Rightarrow> int \<Rightarrow> int" where
  "monthStart mn l =
     (if mn = 0 then 0
      else if mn = 1 then 31
      else if mn = 2 then 59 + l
      else if mn = 3 then 90 + l
      else if mn = 4 then 120 + l
      else if mn = 5 then 151 + l
      else if mn = 6 then 181 + l
      else if mn = 7 then 212 + l
      else if mn = 8 then 243 + l
      else if mn = 9 then 273 + l
      else if mn = 10 then 304 + l
      else 334 + l)"

definition MakeDay :: "int \<Rightarrow> int \<Rightarrow> int \<Rightarrow> int" where
  "MakeDay year month date =
     (let ym = year + month div 12; mn = month mod 12 in
      DayFromYear ym + monthStart mn (if DaysInYear ym = 366 then 1 else 0) + date - 1)"

definition MakeDate :: "int \<Rightarrow> int \<Rightarrow> int" where
  "MakeDate day time = day * msPerDay + time"

type_synonym jsdate = "int option"

definition TimeClip :: "int \<Rightarrow> jsdate" where
  "TimeClip t = (if \<bar>t\<bar> > 8640000000000000 then None else Some t)"

definition LocalTime :: "int \<Rightarrow> int \<Rightarrow> int" where
  "LocalTime tza t = t + tza"

definition UTC :: "int \<Rightarrow> int \<Rightarrow> int" where
  "UTC tza t = t - tza"

text \<open>\<^verbatim>\<open>new Date(year, month, date)\<close>: a year from 0 to 99 means 1900 + year.\<close>

definition fullYear :: "int \<Rightarrow> int" where
  "fullYear year = (if 0 \<le> year \<and> year \<le> 99 then 1900 + year else year)"

definition new_Date :: "int \<Rightarrow> int \<Rightarrow> int \<Rightarrow> int \<Rightarrow> jsdate" where
  "new_Date tza year month date =
     TimeClip (UTC tza (MakeDate (MakeDay (fullYear year) month date) 0))"

definition getFullYear :: "int \<Rightarrow> int \<Rightarrow> int" where
  "getFullYear tza tv = YearFromTime (LocalTime tza tv)"

definition getMonth :: "int \<Rightarrow> int \<Rightarrow> int" where
  "getMonth tza tv = MonthFromTime (LocalTime tza tv)"

definition getDate :: "int \<Rightarrow> int \<Rightarrow> int" where
  "getDate tza tv = DateFromTime (LocalTime tza tv)"

definition getDay :: "int \<Rightarrow> int \<Rightarrow> int" where
  "getDay tza tv = WeekDay (LocalTime tza tv)"

definition setDate :: "int \<Rightarrow> int \<Rightarrow> int \<Rightarrow> jsdate" where
  "setDate tza tv dt =
     (let t = LocalTime tza tv in
      TimeClip (UTC tza (MakeDate (MakeDay (YearFromTime t) (MonthFromTime t) dt)
                                  (TimeWithinDay t))))"

subsection \<open>Numbers as strings\<close>

definition digit :: "nat \<Rightarrow> char" where
  "digit n = ''0123456789'' ! n"

fun digits :: "nat \<Rightarrow> string" where
  "digits n = (if n < 10 then [digit n] else digits (n div 10) @ [digit (n mod 10)])"

declare digits.simps [simp del]

text \<open>\<^verbatim>\<open>String(n)\<close> for an integer, \<^verbatim>\<open>s.padStart(n, c)\<close> for a one-character pad.\<close>

definition String_of :: "int \<Rightarrow> string" where
  "String_of i = (if i < 0 then CHR ''-'' # digits (nat (- i)) else digits (nat i))"

definition padStart :: "nat \<Rightarrow> char \<Rightarrow> string \<Rightarrow> string" where
  "padStart n c s = replicate (n - length s) c @ s"

text \<open>
  \<^verbatim>\<open>toISOString\<close> prints the UTC fields of the time value as
  \<^verbatim>\<open>YYYY-MM-DDTHH:mm:ss.sssZ\<close>; years outside 0..9999 are printed with a sign and six
  digits.
\<close>

definition isoYear :: "int \<Rightarrow> string" where
  "isoYear y =
     (if 0 \<le> y \<and> y \<le> 9999 then padStart 4 (CHR ''0'') (digits (nat y))
      else (if y < 0 then CHR ''-'' else CHR ''+'') # padStart 6 (CHR ''0'') (digits (nat \<bar>y\<bar>)))"

definition pad2 :: "int \<Rightarrow> string" where
  "pad2 n = padStart 2 (CHR ''0'') (String_of n)"

definition toISOString :: "int \<Rightarrow> string" where
  "toISOString tv =
     isoYear (YearFromTime tv) @ ''-'' @ pad2 (MonthFromTime tv + 1) @ ''-'' @
     pad2 (DateFromTime tv) @ ''T'' @ pad2 (HourFromTime tv) @ '':'' @
     pad2 (MinFromTime tv) @ '':'' @ pad2 (SecFromTime tv) @ ''.'' @
     padStart 3 (CHR ''0'') (String_of (msFromTime tv)) @ ''Z''"

section \<open>Helpers of App.jsx\<close>

datatype js_error = RangeError | TypeError

text \<open>
  \<^verbatim>\<open>const toDateStr = (d = new Date()) => d.toISOString().split("T")[0]\<close>.
  The part before the first \<^verbatim>\<open>T\<close>; \<^verbatim>\<open>toISOString\<close> throws a RangeError on an
  invalid Date.
\<close>

definition toDateStr :: "jsdate \<Rightarrow> js_error + string" where
  "toDateStr d =
     (case d of
        None \<Rightarrow> Inl RangeError
      | Some tv \<Rightarrow> Inr (takeWhile (\<lambda>c. c \<noteq> CHR ''T'') (toISOString tv)))"

text \<open>\<^verbatim>\<open>toDateStr()\<close> with the default argument, at clock reading \<open>now\<close>: never invalid.\<close>

definition toDateStr_now :: "int \<Rightarrow> string" where
  "toDateStr_now now = takeWhile (\<lambda>c. c \<noteq> CHR ''T'') (toISOString now)"


text \<open>
  \<^verbatim>\<open>getWeekDates()\<close> at clock reading \<open>now\<close>. Each of the seven dates is a copy of
  \<^verbatim>\<open>mon\<close> moved by \<^verbatim>\<open>setDate\<close> and printed by \<^verbatim>\<open>toDateStr\<close>; a method of an invalid
  Date gives NaN, which \<^verbatim>\<open>setDate\<close> keeps.
\<close>

fun sequence :: "(js_error + 'a) list \<Rightarrow> js_error + 'a list" where
  "sequence [] = Inr []"
| "sequence (x # xs) =
     (case x of
        Inl e \<Rightarrow> Inl e
      | Inr v \<Rightarrow> (case sequence xs of Inl e \<Rightarrow> Inl e | Inr vs \<Rightarrow> Inr (v # vs)))"

definition getWeekDates :: "int \<Rightarrow> int \<Rightarrow> js_error + string list" where
  "getWeekDates tza now =
     (let day = getDay tza now;
          diff = getDate tza now - day + (if day = 0 then - 6 else 1);
          mon = new_Date tza (getFullYear tza now) (getMonth tza now) diff
      in sequence
           (map (\<lambda>i. toDateStr
                   (case mon of
                      None \<Rightarrow> None
                    | Some tv \<Rightarrow> setDate tza tv (getDate tza tv + int i)))
                [0..<7]))"

section \<open>The application state\<close>

text \<open>
  A JavaScript object with string keys is an association list in insertion order:
  reading is \<^const>\<open>map_of\<close>, and a spread followed by a computed key
  (\<^verbatim>\<open>{...o, [k]: v}\<close>) is \<^const>\<open>AList.update\<close>, which overwrites an existing key in
  place and appends a new one.
\<close>

type_synonym 'v obj = "(string \<times> 'v) list"

record category =
  cat_id :: string
  cat_label :: string
  cat_orbitals :: "string list"

text \<open>The emoji, colour and neon fields of the source are presentation only.\<close>

definition DEFAULT_CATEGORIES :: "category list" where
  "DEFAULT_CATEGORIES =
     [\<lparr>cat_id = ''finance'', cat_label = ''Business/Finance'',
        cat_orbitals = [''Track'', ''Invest'', ''Scale'']\<rparr>,
      \<lparr>cat_id = ''tinkering'', cat_label = ''Tinkering/Invention'',
        cat_orbitals = [''Design'', ''Build'', ''Prototype'']\<rparr>,
      \<lparr>cat_id = ''health'', cat_label = ''Health/Vanity'',
        cat_orbitals = [''Workout'', ''Grooming'', ''Reading'']\<rparr>,
      \<lparr>cat_id = ''homestead'', cat_label = ''Cooking/Homestead'',
        cat_orbitals = [''Cook'', ''Preserve'', ''Garden'']\<rparr>,
      \<lparr>cat_id = ''art'', cat_label = ''Growth/Art'',
        cat_orbitals = [''Paint'', ''Music'', ''Write'']\<rparr>,
      \<lparr>cat_id = ''family'', cat_label = ''Family/Wife'',
        cat_orbitals = [''Communication'', ''Walk'', ''Pup'']\<rparr>,
      \<lparr>cat_id = ''fellowship'', cat_label = ''Fellowship'',
        cat_orbitals = [''Maker Class'', ''Outdoors'', ''Fantasy'']\<rparr>,
      \<lparr>cat_id = ''mental'', cat_label = ''Mental Well-being'',
        cat_orbitals = [''Meditation'', ''Reflection'', ''Stillness'']\<rparr>]"

text \<open>
  A pending \<^verbatim>\<open>setTimeout\<close>: its id, the clock reading at which it is due and what it
  runs. The long-press callback closes over the slice index and over the \<^verbatim>\<open>orbitals\<close>
  of the render that created the handler.
\<close>

datatype callback =
    LongPress nat "string list obj"
  | ClearJustLogged
  | ClearSaved

record timer =
  tid :: nat
  deadline :: int
  callback :: callback

text \<open>
  The state of \<^verbatim>\<open>App\<close> (its \<^verbatim>\<open>useState\<close> and \<^verbatim>\<open>useRef\<close> cells, and \<^verbatim>\<open>todayStr\<close> as the
  last render computed it), the \<^verbatim>\<open>saved\<close> flag of \<^verbatim>\<open>SettingsPanel\<close>, and the
  environment it acts on: the clock in milliseconds, the pending timeouts and the two
  \<^verbatim>\<open>localStorage\<close> items, held as the values their JSON text parses to.
\<close>

record app =
  logs :: "int obj obj"
  orbitals :: "string list obj"
  currentView :: nat
  activeSlice :: "nat option"
  orbitalPositions :: "(real \<times> real) option list"
  showSettings :: bool
  justLogged :: "(string \<times> string) option"
  longPressTimer :: "nat option"
  isLongPress :: bool
  pointerDownSlice :: "nat option"
  dragStartX :: "int option"
  saved :: bool
  todayStr :: string
  clock :: int
  timers :: "timer list"
  nextTimerId :: nat
  ls_logs :: "int obj obj option"
  ls_orbitals :: "string list obj option"

definition default_orbitals :: "string list obj" where
  "default_orbitals = map (\<lambda>c. (cat_id c, cat_orbitals c)) DEFAULT_CATEGORIES"

text \<open>
  Mounting \<^verbatim>\<open>App\<close> at clock reading \<open>now\<close> over the stored items: a missing item gives
  \<^verbatim>\<open>{}\<close> for the logs and the defaults for the orbitals, and the two persistence
  effects run after the first render.
\<close>

definition mount :: "int obj obj option \<Rightarrow> string list obj option \<Rightarrow> int \<Rightarrow> app" where
  "mount stored_logs stored_orbitals now =
     (let l = (case stored_logs of None \<Rightarrow> [] | Some x \<Rightarrow> x);
          ob = (case stored_orbitals of None \<Rightarrow> default_orbitals | Some x \<Rightarrow> x)
      in \<lparr>logs = l, orbitals = ob, currentView = 0, activeSlice = None,
          orbitalPositions = [], showSettings = False, justLogged = None,
          longPressTimer = None, isLongPress = False, pointerDownSlice = None,
          dragStartX = None, saved = False, todayStr = toDateStr_now now, clock = now,
          timers = [], nextTimerId = 0, ls_logs = Some l, ls_orbitals = Some ob\<rparr>)"

text \<open>
  A render recomputes \<^verbatim>\<open>todayStr\<close>; afterwards the effect of each changed dependency
  writes its item (\<^verbatim>\<open>useEffect(..., [logs])\<close>, \<^verbatim>\<open>useEffect(..., [orbitals])\<close>).
\<close>

definition rerender :: "bool \<Rightarrow> bool \<Rightarrow> app \<Rightarrow> app" where
  "rerender logsChanged orbitalsChanged s =
     s\<lparr>todayStr := toDateStr_now (clock s),
       ls_logs := (if logsChanged then Some (logs s) else ls_logs s),
       ls_orbitals := (if orbitalsChanged then Some (orbitals s) else ls_orbitals s)\<rparr>"

definition setTimeout :: "callback \<Rightarrow> int \<Rightarrow> app \<Rightarrow> app" where
  "setTimeout cb delay s =
     s\<lparr>timers := timers s @ [\<lparr>tid = nextTimerId s, deadline = clock s + delay, callback = cb\<rparr>],
       nextTimerId := Suc (nextTimerId s)\<rparr>"

definition clearTimeout :: "nat option \<Rightarrow> app \<Rightarrow> app" where
  "clearTimeout r s =
     (case r of
        None \<Rightarrow> s
      | Some i \<Rightarrow> s\<lparr>timers := filter (\<lambda>tm. tid tm \<noteq> i) (timers s)\<rparr>)"

text \<open>\<^verbatim>\<open>getLoggedCatsToday().size\<close>, the completion count of the pie's centre.\<close>

definition getLoggedCatsToday :: "app \<Rightarrow> string list" where
  "getLoggedCatsToday s =
     (let dayLogs = (case map_of (logs s) (todayStr s) of None \<Rightarrow> [] | Some d \<Rightarrow> d)
      in remdups (map (\<lambda>k. takeWhile (\<lambda>c. c \<noteq> CHR '':'') (fst k)) dayLogs))"

definition completedCount :: "app \<Rightarrow> nat" where
  "completedCount s = length (getLoggedCatsToday s)"

text \<open>\<^verbatim>\<open>logActivity(catId, orbital)\<close>; the vibration is not modelled.\<close>

definition logActivity :: "string \<Rightarrow> string \<Rightarrow> app \<Rightarrow> app" where
  "logActivity catId orbital s =
     (let key = catId @ '':'' @ orbital;
          s1 = s\<lparr>logs :=
                 AList.update (todayStr s)
                   (AList.update key (clock s)
                      (case map_of (logs s) (todayStr s) of None \<Rightarrow> [] | Some d \<Rightarrow> d))
                   (logs s)\<rparr>;
          s2 = s1\<lparr>justLogged := Some (catId, orbital)\<rparr>;
          s3 = setTimeout ClearJustLogged 2000 s2
      in s3\<lparr>activeSlice := None\<rparr>)"

text \<open>
  \<^verbatim>\<open>handlePointerDown(idx, e)\<close> starts the 380 ms timer and keeps its id in the
  \<^verbatim>\<open>longPressTimer\<close> ref.
\<close>

definition handlePointerDown :: "nat \<Rightarrow> app \<Rightarrow> app" where
  "handlePointerDown idx s =
     (let s1 = s\<lparr>isLongPress := False, pointerDownSlice := Some idx\<rparr>;
          s2 = setTimeout (LongPress idx (orbitals s)) 380 s1
      in s2\<lparr>longPressTimer := Some (nextTimerId s)\<rparr>)"

definition handlePointerUp :: "app \<Rightarrow> app" where
  "handlePointerUp s =
     (clearTimeout (longPressTimer s) s)\<lparr>isLongPress := False, pointerDownSlice := None\<rparr>"

definition handlePointerLeave :: "app \<Rightarrow> app" where
  "handlePointerLeave s = (clearTimeout (longPressTimer s) s)\<lparr>isLongPress := False\<rparr>"

definition dismissOrbitals :: "app \<Rightarrow> app" where
  "dismissOrbitals s = s\<lparr>activeSlice := None\<rparr>"

text \<open>
  The body of the long-press timer. \<^verbatim>\<open>spread[i]\<close> beyond the table is \<^verbatim>\<open>undefined\<close>,
  which makes both coordinates NaN: such a position is \<open>None\<close>. Cosine and sine are
  the real functions; rounding to doubles is not modelled.
\<close>

definition spread :: "nat \<Rightarrow> real list" where
  "spread n =
     (if n = 3 then [- 38, 0, 38]
      else if n = 4 then [- 55, - 18, 18, 55]
      else [- 50, - 25, 0, 25, 50])"

definition orbitalPosition :: "nat \<Rightarrow> nat \<Rightarrow> nat \<Rightarrow> (real \<times> real) option" where
  "orbitalPosition idx n i =
     (let midAngle = real idx * 45 + 22.5 in
      if i < length (spread n) then
        (let angleDeg = midAngle + spread n ! i - 90;
             rad = (angleDeg * pi) / 180;
             dist = 115
         in Some (cos rad * dist, sin rad * dist))
      else None)"

definition orbs_of :: "string list obj \<Rightarrow> category \<Rightarrow> string list" where
  "orbs_of cfg cat = (case map_of cfg (cat_id cat) of None \<Rightarrow> cat_orbitals cat | Some a \<Rightarrow> a)"

definition positions :: "nat \<Rightarrow> string list \<Rightarrow> (real \<times> real) option list" where
  "positions idx orbs = map (orbitalPosition idx (length orbs)) [0..<length orbs]"

text \<open>
  \<^verbatim>\<open>DEFAULT_CATEGORIES[idx]\<close> out of range is \<^verbatim>\<open>undefined\<close>, and reading its \<^verbatim>\<open>id\<close>
  throws after the ref was set: the callback ends there.
\<close>

definition longPressFired :: "nat \<Rightarrow> string list obj \<Rightarrow> app \<Rightarrow> app" where
  "longPressFired idx cfg s =
     (let s1 = s\<lparr>isLongPress := True\<rparr> in
      if idx < length DEFAULT_CATEGORIES then
        (let cat = DEFAULT_CATEGORIES ! idx;
             orbs = orbs_of cfg cat
         in rerender False False
              (s1\<lparr>orbitalPositions := positions idx orbs, activeSlice := Some idx\<rparr>))
      else s1)"

text \<open>
  Running a due timer: it leaves the pending list, the clock is at least its deadline,
  and its callback runs. Setting a state cell to the value it already has does not
  render again.
\<close>

definition run_callback :: "callback \<Rightarrow> app \<Rightarrow> app" where
  "run_callback cb s =
     (case cb of
        LongPress idx cfg \<Rightarrow> longPressFired idx cfg s
      | ClearJustLogged \<Rightarrow>
          (if justLogged s = None then s else rerender False False (s\<lparr>justLogged := None\<rparr>))
      | ClearSaved \<Rightarrow> s\<lparr>saved := False\<rparr>)"

definition fire :: "timer \<Rightarrow> app \<Rightarrow> app" where
  "fire tm s =
     run_callback (callback tm)
       (s\<lparr>timers := filter (\<lambda>x. tid x \<noteq> tid tm) (timers s),
          clock := max (clock s) (deadline tm)\<rparr>)"

text \<open>
  The next timer to run by clock reading \<open>t\<close>: the earliest deadline, the one set
  first among equal deadlines.
\<close>

definition next_due :: "int \<Rightarrow> timer list \<Rightarrow> timer option" where
  "next_due t ts =
     (case filter (\<lambda>tm. deadline tm \<le> t) ts of
        [] \<Rightarrow> None
      | d # ds \<Rightarrow> Some (foldl (\<lambda>a b. if deadline b < deadline a then b else a) d ds))"

lemma foldl_earliest_mem:
  "foldl (\<lambda>a b. if deadline b < deadline a then b else a) d ds \<in> set (d # ds)"
proof (induction ds arbitrary: d)
  case Nil
  show ?case by simp
next
  case (Cons x xs)
  show ?case using Cons.IH [of "if deadline x < deadline d then x else d"] by auto
qed

lemma next_due_mem: "next_due t ts = Some tm \<Longrightarrow> tm \<in> set ts"
proof -
  assume a: "next_due t ts = Some tm"
  then obtain d ds where f: "filter (\<lambda>tm. deadline tm \<le> t) ts = d # ds"
    by (auto simp: next_due_def split: list.splits)
  then have "tm \<in> set (d # ds)"
    using a foldl_earliest_mem [of d ds] by (simp add: next_due_def)
  then have "tm \<in> set (filter (\<lambda>tm. deadline tm \<le> t) ts)" using f by simp
  then show ?thesis by simp
qed

lemma timers_rerender [simp]: "timers (rerender a b s) = timers s"
  by (simp add: rerender_def)

lemma timers_longPressFired [simp]: "timers (longPressFired idx cfg s) = timers s"
  by (simp add: longPressFired_def Let_def)

lemma timers_run_callback [simp]: "timers (run_callback cb s) = timers s"
  by (cases cb) (simp_all add: run_callback_def)

lemma timers_fire: "timers (fire tm s) = filter (\<lambda>x. tid x \<noteq> tid tm) (timers s)"
  by (simp add: fire_def)

lemma fire_decreases:
  fixes s :: app
  shows "tm \<in> set (timers s) \<Longrightarrow> length (timers (fire tm s)) < length (timers s)"
  unfolding timers_fire by (rule length_filter_less) simp_all

text \<open>Letting the clock reach \<open>t\<close> with no input: the due timers run in order.\<close>

function run_timers :: "int \<Rightarrow> app \<Rightarrow> app" where
  "run_timers t s =
     (case next_due t (timers s) of
        None \<Rightarrow> s
      | Some tm \<Rightarrow> run_timers t (fire tm s))"
  by pat_completeness auto

termination run_timers
proof (relation "measure (\<lambda>(t, s). length (timers s))")
  show "wf (measure (\<lambda>(t, s). length (timers s)))" by simp
next
  fix t :: int and s :: app and tm :: timer
  assume "next_due t (timers s) = Some tm"
  then have "tm \<in> set (timers s)" by (rule next_due_mem)
  then show "((t, fire tm s), (t, s)) \<in> measure (\<lambda>(t, s). length (timers s))"
    using fire_decreases by simp
qed

declare run_timers.simps [simp del]

definition advance :: "int \<Rightarrow> app \<Rightarrow> app" where
  "advance t s = (let s1 = run_timers t s in s1\<lparr>clock := max (clock s1) t\<rparr>)"

subsection \<open>Input events\<close>

text \<open>
  The swipe handlers of the root element; they are attached only while no slice is
  active.
\<close>

definition handleTouchStart :: "int \<Rightarrow> app \<Rightarrow> app" where
  "handleTouchStart x s = s\<lparr>dragStartX := Some x\<rparr>"

definition handleTouchEnd :: "int \<Rightarrow> app \<Rightarrow> app" where
  "handleTouchEnd x s =
     (case dragStartX s of
        None \<Rightarrow> s
      | Some x0 \<Rightarrow>
          (let dx = x - x0;
               s1 = (if \<bar>dx\<bar> > 60 then
                       (let s2 = (if dx < 0 \<and> currentView s < 2
                                  then rerender False False (s\<lparr>currentView := currentView s + 1\<rparr>)
                                  else s)
                        in if dx > 0 \<and> currentView s > 0
                           then rerender False False (s2\<lparr>currentView := currentView s2 - 1\<rparr>)
                           else s2)
                     else s)
           in s1\<lparr>dragStartX := None\<rparr>))"

text \<open>
  \<^verbatim>\<open>onClearData\<close> as \<^verbatim>\<open>App\<close> passes it to the settings panel:
  \<^verbatim>\<open>setLogs({}); localStorage.removeItem("ritual_logs")\<close>. The new object is a changed
  dependency, so the logs effect runs after the render that follows.
\<close>

definition onClearData :: "app \<Rightarrow> app" where
  "onClearData s = s\<lparr>logs := [], ls_logs := None\<rparr>"

definition onClose :: "app \<Rightarrow> app" where
  "onClose s = s\<lparr>showSettings := False\<rparr>"

text \<open>
  \<^verbatim>\<open>handleSave\<close> of the settings panel with the edited values, through the
  \<^verbatim>\<open>setOrbitals\<close> wrapper of \<^verbatim>\<open>App\<close>, which also writes the item itself.
\<close>

definition handleSave :: "string list obj \<Rightarrow> app \<Rightarrow> app" where
  "handleSave editValues s =
     setTimeout ClearSaved 1500
       (s\<lparr>orbitals := editValues, ls_orbitals := Some editValues, saved := True\<rparr>)"

datatype event =
    PointerDown nat
  | PointerUp
  | PointerCancel
  | PointerLeave
  | ClickBackdrop
  | ClickOrbital nat
  | ClickTab nat
  | TouchStart int
  | TouchEnd int
  | OpenSettings
  | CloseSettings
  | ClickSave "string list obj"
  | ClickClearData bool

text \<open>
  One input event, its handler and the render that follows a state change. An event
  whose element is not on the screen (a slice outside the pie view, an orbital or the
  backdrop while no slice is active, a settings button while the panel is closed)
  leaves the state as it is. Opening the settings mounts the panel, whose \<^verbatim>\<open>saved\<close>
  flag starts false. \<^verbatim>\<open>ClickClearData\<close> carries the answer of \<^verbatim>\<open>window.confirm\<close>.
  The exit animation of the orbital buttons is not modelled: a click on a button that
  is still leaving the screen, after the active slice was reset, is not an event here.
\<close>

definition step :: "event \<Rightarrow> app \<Rightarrow> app" where
  "step e s =
     (case e of
        PointerDown idx \<Rightarrow>
          (if currentView s = 0 \<and> idx < length DEFAULT_CATEGORIES
           then handlePointerDown idx s else s)
      | PointerUp \<Rightarrow> (if currentView s = 0 then handlePointerUp s else s)
      | PointerCancel \<Rightarrow> (if currentView s = 0 then handlePointerUp s else s)
      | PointerLeave \<Rightarrow> (if currentView s = 0 then handlePointerLeave s else s)
      | ClickBackdrop \<Rightarrow>
          (if currentView s = 0 \<and> activeSlice s \<noteq> None
           then rerender False False (dismissOrbitals s) else s)
      | ClickOrbital i \<Rightarrow>
          (case activeSlice s of
             None \<Rightarrow> s
           | Some a \<Rightarrow>
               (if currentView s = 0 \<and> a < length DEFAULT_CATEGORIES then
                  (let cat = DEFAULT_CATEGORIES ! a;
                       orbs = orbs_of (orbitals s) cat
                   in if i < length orbs
                      then rerender True False (logActivity (cat_id cat) (orbs ! i) s)
                      else s)
                else s))
      | ClickTab i \<Rightarrow>
          (if i < 3 \<and> i \<noteq> currentView s
           then rerender False False (s\<lparr>currentView := i\<rparr>) else s)
      | TouchStart x \<Rightarrow> (if activeSlice s = None then handleTouchStart x s else s)
      | TouchEnd x \<Rightarrow> (if activeSlice s = None then handleTouchEnd x s else s)
      | OpenSettings \<Rightarrow>
          (if showSettings s then s
           else rerender False False (s\<lparr>showSettings := True, saved := False\<rparr>))
      | CloseSettings \<Rightarrow>
          (if showSettings s then rerender False False (onClose s) else s)
      | ClickSave editValues \<Rightarrow>
          (if showSettings s then rerender False True (handleSave editValues s) else s)
      | ClickClearData confirmed \<Rightarrow>
          (if showSettings s \<and> confirmed
           then rerender True False (onClose (onClearData s)) else s))"

text \<open>An event at clock reading \<open>t\<close>: the timers due by then have run.\<close>

definition at_time :: "int \<Rightarrow> event \<Rightarrow> app \<Rightarrow> app" where
  "at_time t e s = step e (advance t s)"

lemma rerender_fields [simp]:
  "logs (rerender a b s) = logs s"
  "orbitals (rerender a b s) = orbitals s"
  "activeSlice (rerender a b s) = activeSlice s"
  "orbitalPositions (rerender a b s) = orbitalPositions s"
  "justLogged (rerender a b s) = justLogged s"
  "currentView (rerender a b s) = currentView s"
  "showSettings (rerender a b s) = showSettings s"
  "clock (rerender a b s) = clock s"
  "nextTimerId (rerender a b s) = nextTimerId s"
  "longPressTimer (rerender a b s) = longPressTimer s"
  "todayStr (rerender a b s) = toDateStr_now (clock s)"
  "ls_logs (rerender a b s) = (if a then Some (logs s) else ls_logs s)"
  "ls_orbitals (rerender a b s) = (if b then Some (orbitals s) else ls_orbitals s)"
  by (simp_all add: rerender_def)

section \<open>The days of a month\<close>

text \<open>
  The calendar the claims speak of: a year is a leap year when it is divisible by 4
  and not by 100, or by 400, and February has 29 days then and 28 otherwise; April,
  June, September and November have 30 days and the other months 31. Months are
  numbered from 0 as \<^verbatim>\<open>getMonth\<close> does.
\<close>

definition leapDay :: "int \<Rightarrow> int" where
  "leapDay y = (if DaysInYear y = 366 then 1 else 0)"

definition monthEnd :: "int \<Rightarrow> int \<Rightarrow> int" where
  "monthEnd mn l = (if mn = 11 then 365 + l else monthStart (mn + 1) l)"



lemma DayFromYear_mono: "a \<le> b \<Longrightarrow> DayFromYear a \<le> DayFromYear b"
proof (induction b rule: int_ge_induct)
  case base
  show ?case by simp
next
  case (step i)
  then show ?case using DayFromYear_less_Suc [of i] by linarith
qed

lemma DayFromYear_strict: "a < b \<Longrightarrow> DayFromYear a < DayFromYear b"
  using DayFromYear_mono [of "a + 1" b] DayFromYear_less_Suc [of a] by linarith

lemma year_down_le: "DayFromYear (year_down d y) \<le> d"
  by (induction d y rule: year_down.induct) (simp add: year_down.simps [of d y for d y])

lemma year_up_bounds:
  "DayFromYear y \<le> d \<Longrightarrow>
   DayFromYear (year_up d y) \<le> d \<and> d < DayFromYear (year_up d y + 1)"
proof (induction d y rule: year_up.induct)
  case (1 d y)
  show ?case
  proof (cases "d < DayFromYear (y + 1)")
    case True
    then show ?thesis using "1.prems" by (subst (1 2) year_up.simps) simp
  next
    case False
    then have "DayFromYear (year_up d (y + 1)) \<le> d \<and> d < DayFromYear (year_up d (y + 1) + 1)"
      using "1.IH" by simp
    then show ?thesis using False by (subst (1 2) year_up.simps) simp
  qed
qed

lemma year_unique:
  assumes "DayFromYear a \<le> d" "d < DayFromYear (a + 1)"
      and "DayFromYear b \<le> d" "d < DayFromYear (b + 1)"
  shows "a = b"
proof (rule ccontr)
  assume "a \<noteq> b"
  then consider "a + 1 \<le> b" | "b + 1 \<le> a" by linarith
  then show False
  proof cases
    case 1
    then show False using DayFromYear_mono [of "a + 1" b] assms by linarith
  next
    case 2
    then show False using DayFromYear_mono [of "b + 1" a] assms by linarith
  qed
qed

lemma YearFromTime_eq:
  assumes "DayFromYear Y \<le> Day t" "Day t < DayFromYear (Y + 1)"
  shows "YearFromTime t = Y"
proof -
  let ?y = "year_up (Day t) (year_down (Day t) (1970 + Day t div 365))"
  have "DayFromYear ?y \<le> Day t \<and> Day t < DayFromYear (?y + 1)"
    by (rule year_up_bounds) (rule year_down_le)
  then have "?y = Y" using assms year_unique by blast
  then show ?thesis by (simp add: YearFromTime_def Let_def)
qed

lemma Day_split:
  assumes "0 \<le> r" "r < msPerDay"
  shows "Day (d * msPerDay + r) = d" "TimeWithinDay (d * msPerDay + r) = r"
  using assms by (simp_all add: Day_def TimeWithinDay_def msPerDay_def div_pos_pos_trivial)

lemma DaysInYear_leapDay: "DaysInYear y = 365 + leapDay y"
  by (simp add: leapDay_def DaysInYear_def)

lemma year_fields:
  assumes "0 \<le> k" "k < DaysInYear Y" "Day t = DayFromYear Y + k"
  shows "YearFromTime t = Y" "DayWithinYear t = k" "InLeapYear t = leapDay Y"
proof -
  show y: "YearFromTime t = Y"
    using assms DayFromYear_step [of Y] by (intro YearFromTime_eq) simp_all
  show "DayWithinYear t = k" using assms y by (simp add: DayWithinYear_def)
  show "InLeapYear t = leapDay Y" using y by (simp add: InLeapYear_def leapDay_def)
qed

lemma leapDay_cases: "leapDay y = 0 \<or> leapDay y = 1"
  by (simp add: leapDay_def)

lemma month_range:
  "0 \<le> (mn::int) \<Longrightarrow> mn \<le> 11 \<Longrightarrow>
   mn = 0 \<or> mn = 1 \<or> mn = 2 \<or> mn = 3 \<or> mn = 4 \<or> mn = 5 \<or> mn = 6 \<or>
   mn = 7 \<or> mn = 8 \<or> mn = 9 \<or> mn = 10 \<or> mn = 11"
  by arith

lemma leapDay_nonneg: "0 \<le> leapDay y"
  by (simp add: leapDay_def)

lemma month_cases:
  assumes "0 \<le> (mn::int)" "mn \<le> 11"
  obtains "mn = 0" | "mn = 1" | "mn = 2" | "mn = 3" | "mn = 4" | "mn = 5" | "mn = 6"
    | "mn = 7" | "mn = 8" | "mn = 9" | "mn = 10" | "mn = 11"
  using month_range [OF assms] by blast

lemma monthStart_nonneg: "0 \<le> l \<Longrightarrow> 0 \<le> monthStart mn l"
  by (auto simp: monthStart_def)

lemma monthEnd_le:
  assumes "0 \<le> mn" "mn \<le> 11" "0 \<le> l"
  shows "monthEnd mn l \<le> 365 + l"
  using assms(3)
  by (cases rule: month_cases [OF assms(1,2)]) (simp_all add: monthEnd_def monthStart_def)

lemma month_fields:
  assumes mn: "0 \<le> mn" "mn \<le> 11"
      and k: "monthStart mn (leapDay Y) \<le> k" "k < monthEnd mn (leapDay Y)"
      and t: "Day t = DayFromYear Y + k"
  shows "YearFromTime t = Y" "MonthFromTime t = mn"
        "DateFromTime t = k - monthStart mn (leapDay Y) + 1"
proof -
  have k0: "0 \<le> k"
    using k(1) monthStart_nonneg [OF leapDay_nonneg, of mn Y] by simp
  have k1: "k < DaysInYear Y"
    using k(2) monthEnd_le [OF mn leapDay_nonneg, of Y] by (simp add: DaysInYear_leapDay)
  note f = year_fields [OF k0 k1 t]
  show "YearFromTime t = Y" by (rule f(1))
  show m: "MonthFromTime t = mn"
    using k leapDay_nonneg [of Y]
    by (cases rule: month_cases [OF mn])
       (simp_all add: MonthFromTime_def f Let_def monthStart_def monthEnd_def)
  show "DateFromTime t = k - monthStart mn (leapDay Y) + 1"
    by (cases rule: month_cases [OF mn])
       (simp_all add: DateFromTime_def m f Let_def monthStart_def)
qed
















section \<open>The dates of the week\<close>

text \<open>
  The day number of the Monday on or before the local day of \<open>now\<close>: the start of the
  week that \<^verbatim>\<open>getWeekDates\<close> aims at.
\<close>

definition weekStart :: "int \<Rightarrow> int \<Rightarrow> int" where
  "weekStart tza now = Day (LocalTime tza now) - (WeekDay (LocalTime tza now) + 6) mod 7"

lemma MonthFromTime_range: "0 \<le> MonthFromTime t" "MonthFromTime t \<le> 11"
  by (simp_all add: MonthFromTime_def Let_def)

lemma InLeapYear_leapDay: "InLeapYear t = leapDay (YearFromTime t)"
  by (simp add: InLeapYear_def leapDay_def)

lemma DateFromTime_monthStart:
  "monthStart (MonthFromTime t) (InLeapYear t) + DateFromTime t - 1 = DayWithinYear t"
  by (cases rule: month_cases [OF MonthFromTime_range [of t]])
     (simp_all add: DateFromTime_def monthStart_def Let_def)

lemma MakeDay_fields:
  "MakeDay (YearFromTime t) (MonthFromTime t) (DateFromTime t + j) = Day t + j"
proof -
  have m: "MonthFromTime t div 12 = 0" "MonthFromTime t mod 12 = MonthFromTime t"
    using MonthFromTime_range [of t] by (simp_all add: div_pos_pos_trivial mod_pos_pos_trivial)
  have "MakeDay (YearFromTime t) (MonthFromTime t) (DateFromTime t + j) =
          DayFromYear (YearFromTime t) +
          (monthStart (MonthFromTime t) (InLeapYear t) + DateFromTime t - 1) + j"
    by (simp add: MakeDay_def m InLeapYear_def)
  then show ?thesis
    unfolding DateFromTime_monthStart by (simp add: DayWithinYear_def)
qed

lemma MakeDay_fields_minus:
  "MakeDay (YearFromTime t) (MonthFromTime t) (DateFromTime t - j) = Day t - j"
  using MakeDay_fields [of t "- j"] by simp

lemma week_offset: "d - w + (if w = 0 then - 6 else 1) = d - (w + 6) mod 7" if "0 \<le> w" "w < 7" for d w :: int
proof (cases "w = 0")
  case True
  then show ?thesis by simp
next
  case False
  then have "(w + 6) mod 7 = w - 1" using that by presburger
  then show ?thesis using False by simp
qed

lemma WeekDay_range: "0 \<le> WeekDay t" "WeekDay t < 7"
  by (simp_all add: WeekDay_def)

lemma monday: "(Day t - (WeekDay t + 6) mod 7 + 4) mod 7 = 1"
  unfolding WeekDay_def by presburger

lemma sequence_Inr: "sequence (map Inr xs) = Inr xs"
  by (induction xs) simp_all

lemma toDateStr_Some: "toDateStr (Some tv) = Inr (toDateStr_now tv)"
  by (simp add: toDateStr_def toDateStr_now_def)

lemma weekStart_bounds:
  "Day (LocalTime tza now) - 6 \<le> weekStart tza now" "weekStart tza now \<le> Day (LocalTime tza now)"
  unfolding weekStart_def by simp_all

lemma TimeClip_ok:
  assumes "\<bar>x\<bar> \<le> 99999000" "\<bar>tza\<bar> \<le> msPerDay"
  shows "TimeClip (x * msPerDay - tza) = Some (x * msPerDay - tza)"
proof -
  have "- 99999000 \<le> x" "x \<le> 99999000" "- 86400000 \<le> tza" "tza \<le> 86400000"
    using assms by (simp_all add: msPerDay_def abs_le_iff)
  then have "\<bar>x * 86400000 - tza\<bar> \<le> 8640000000000000" by linarith
  then show ?thesis by (simp add: TimeClip_def msPerDay_def)
qed

lemma week_general:
  assumes now: "\<bar>now\<bar> \<le> 8639000000000000"
      and tza: "\<bar>tza\<bar> \<le> msPerDay"
      and yr: "\<not> (0 \<le> getFullYear tza now \<and> getFullYear tza now \<le> 99)"
  shows "getWeekDates tza now =
           Inr (map (\<lambda>i. toDateStr_now ((weekStart tza now + int i) * msPerDay - tza)) [0..<7])"
proof -
  let ?l = "LocalTime tza now"
  let ?M = "weekStart tza now"
  let ?tv = "?M * msPerDay - tza"
  have dl: "\<bar>Day ?l\<bar> \<le> 99990000"
    using now tza by (simp add: Day_def LocalTime_def msPerDay_def abs_le_iff) linarith
  have Mb: "\<bar>?M + j\<bar> \<le> 99999000" if "0 \<le> j" "j < 7" for j
    using weekStart_bounds [of tza now] dl that by (simp add: abs_le_iff)
  have clip: "TimeClip ((?M + j) * msPerDay - tza) = Some ((?M + j) * msPerDay - tza)"
    if "0 \<le> j" "j < 7" for j
    by (rule TimeClip_ok [OF Mb [OF that] tza])
  have diff: "getDate tza now - getDay tza now + (if getDay tza now = 0 then - 6 else 1) =
                DateFromTime ?l + (- ((WeekDay ?l + 6) mod 7))"
    using week_offset [OF WeekDay_range, of "DateFromTime ?l" ?l]
    by (simp add: getDate_def getDay_def)
  have mon: "new_Date tza (getFullYear tza now) (getMonth tza now)
               (getDate tza now - getDay tza now + (if getDay tza now = 0 then - 6 else 1)) =
             Some ?tv"
  proof -
    have fy: "fullYear (getFullYear tza now) = YearFromTime ?l"
      using yr by (auto simp: fullYear_def getFullYear_def)
    show ?thesis
      unfolding diff new_Date_def fy using clip [of 0]
      by (simp add: getMonth_def MakeDay_fields_minus UTC_def MakeDate_def weekStart_def)
  qed
  have local: "LocalTime tza ?tv = ?M * msPerDay" by (simp add: LocalTime_def)
  have day: "Day (?M * msPerDay) = ?M" "TimeWithinDay (?M * msPerDay) = 0"
    using Day_split [of 0 ?M] by (simp_all add: msPerDay_def)
  have sd: "setDate tza ?tv (getDate tza ?tv + int i) = Some ((?M + int i) * msPerDay - tza)"
    if "i < 7" for i
    using clip [of "int i"] that
    by (simp add: setDate_def getDate_def local MakeDay_fields day UTC_def MakeDate_def Let_def)
  have "map (\<lambda>i. toDateStr (case Some ?tv of None \<Rightarrow> None
                     | Some tv \<Rightarrow> setDate tza tv (getDate tza tv + int i))) [0..<7] =
        map Inr (map (\<lambda>i. toDateStr_now ((?M + int i) * msPerDay - tza)) [0..<7])"
    by (simp add: sd toDateStr_Some)
  then show ?thesis
    unfolding getWeekDates_def Let_def mon by (simp only: sequence_Inr)
qed

lemma digit_not_T: "n < 10 \<Longrightarrow> digit n \<noteq> CHR ''T''"
proof -
  assume "n < 10"
  then have "digit n \<in> set ''0123456789''" unfolding digit_def by (intro nth_mem) simp
  then show ?thesis by auto
qed

lemma digits_no_T: "CHR ''T'' \<notin> set (digits n)"
proof (induction n rule: digits.induct)
  case (1 n)
  show ?case
  proof (cases "n < 10")
    case True
    then show ?thesis using digit_not_T [of n] by (subst digits.simps) simp
  next
    case False
    then show ?thesis
      using "1.IH" digit_not_T [of "n mod 10"] by (subst digits.simps) simp
  qed
qed

lemma padStart_no_T: "CHR ''T'' \<notin> set (padStart n (CHR ''0'') (digits k))"
  using digits_no_T [of k] by (auto simp: padStart_def)

lemma pad2_no_T: "0 \<le> n \<Longrightarrow> CHR ''T'' \<notin> set (pad2 n)"
  using padStart_no_T [of 2 "nat n"] by (simp add: pad2_def String_of_def)

lemma takeWhile_prefix:
  "\<forall>c \<in> set xs. P c \<Longrightarrow> \<not> P y \<Longrightarrow> takeWhile P (xs @ y # ys) = xs"
  by (induction xs) simp_all

lemma toDateStr_now_eq:
  assumes "Day t = DayFromYear Y + k" "0 \<le> mn" "mn \<le> 11"
      and "monthStart mn (leapDay Y) \<le> k" "k < monthEnd mn (leapDay Y)"
      and "0 \<le> Y" "Y \<le> 9999"
  shows "toDateStr_now t =
           padStart 4 (CHR ''0'') (digits (nat Y)) @ ''-'' @ pad2 (mn + 1) @ ''-'' @
           pad2 (k - monthStart mn (leapDay Y) + 1)"
proof -
  note f = month_fields [OF assms(2,3,4,5,1)]
  let ?p = "padStart 4 (CHR ''0'') (digits (nat Y)) @ ''-'' @ pad2 (mn + 1) @ ''-'' @
            pad2 (k - monthStart mn (leapDay Y) + 1)"
  have "\<forall>c \<in> set ?p. c \<noteq> CHR ''T''"
    using padStart_no_T [of 4 "nat Y"] pad2_no_T [of "mn + 1"]
      pad2_no_T [of "k - monthStart mn (leapDay Y) + 1"] assms(2,4)
    by auto
  then have "takeWhile (\<lambda>c. c \<noteq> CHR ''T'')
               (?p @ CHR ''T'' # (pad2 (HourFromTime t) @ '':'' @
                 pad2 (MinFromTime t) @ '':'' @ pad2 (SecFromTime t) @ ''.'' @
                 padStart 3 (CHR ''0'') (String_of (msFromTime t)) @ ''Z'')) = ?p"
    by (intro takeWhile_prefix) simp_all
  then show ?thesis
    using assms(6,7) by (simp add: toDateStr_now_def toISOString_def f isoYear_def)
qed

lemmas cal_eval =
  Day_def msPerDay_def DayFromYear_def monthStart_def monthEnd_def leapDay_def DaysInYear_def
  LocalTime_def

lemmas str_eval = pad2_def padStart_def String_of_def digits.simps digit_def

lemma today_strings:
  "toDateStr_now 1718078400000 = ''2024-06-11''"
  "toDateStr_now (LocalTime (- 18000000) 1718078400000) = ''2024-06-10''"
  "toDateStr_now (LocalTime 3600000 1718190000000) = ''2024-06-12''"
  "toDateStr_now (LocalTime 3600000 1718535600000) = ''2024-06-16''"
  using toDateStr_now_eq [of 1718078400000 2024 162 5]
    toDateStr_now_eq [of "LocalTime (- 18000000) 1718078400000" 2024 161 5]
    toDateStr_now_eq [of "LocalTime 3600000 1718190000000" 2024 163 5]
    toDateStr_now_eq [of "LocalTime 3600000 1718535600000" 2024 167 5]
  by (simp_all add: cal_eval str_eval)

lemma week_strings:
  "toDateStr_now 1717974000000 = ''2024-06-09''"
  "toDateStr_now 1718060400000 = ''2024-06-10''"
  "toDateStr_now 1718146800000 = ''2024-06-11''"
  "toDateStr_now 1718233200000 = ''2024-06-12''"
  "toDateStr_now 1718319600000 = ''2024-06-13''"
  "toDateStr_now 1718406000000 = ''2024-06-14''"
  "toDateStr_now 1718492400000 = ''2024-06-15''"
  using toDateStr_now_eq [of 1717974000000 2024 160 5]
    toDateStr_now_eq [of 1718060400000 2024 161 5]
    toDateStr_now_eq [of 1718146800000 2024 162 5]
    toDateStr_now_eq [of 1718233200000 2024 163 5]
    toDateStr_now_eq [of 1718319600000 2024 164 5]
    toDateStr_now_eq [of 1718406000000 2024 165 5]
    toDateStr_now_eq [of 1718492400000 2024 166 5]
  by (simp_all add: cal_eval str_eval)

lemma upt_7: "[0..<7] = [0, 1, 2, 3, 4, 5, 6]"
  by code_simp

lemma week_years:
  "getFullYear 3600000 1718190000000 = 2024" "getFullYear 3600000 1718535600000 = 2024"
  using month_fields(1) [of 5 2024 163 "LocalTime 3600000 1718190000000"]
    month_fields(1) [of 5 2024 167 "LocalTime 3600000 1718535600000"]
  by (simp_all add: getFullYear_def cal_eval)

lemma week_starts:
  "weekStart 3600000 1718190000000 = 19884" "weekStart 3600000 1718535600000 = 19884"
  by (simp_all add: weekStart_def WeekDay_def Day_def LocalTime_def msPerDay_def)

lemma Day_east:
  assumes "0 < tza" "tza \<le> msPerDay"
  shows "Day (x * msPerDay - tza) = x - 1"
proof -
  have e: "x * msPerDay - tza = (x - 1) * msPerDay + (msPerDay - tza)"
    by (simp add: algebra_simps)
  have "Day ((x - 1) * msPerDay + (msPerDay - tza)) = x - 1"
    using assms by (intro Day_split(1)) simp_all
  then show ?thesis by (simp only: e)
qed

lemma Day_west:
  assumes "- msPerDay < tza" "tza \<le> 0"
  shows "Day (x * msPerDay - tza) = x"
  using Day_split(1) [of "- tza" x] assms by simp

lemma weekStart_monday: "(weekStart tza now + 4) mod 7 = 1"
  unfolding weekStart_def by (rule monday)

text \<open>
  What \<^verbatim>\<open>getWeekDates\<close> returns in general. East of UTC the seven strings are the dates
  of seven consecutive days that start on a Sunday, the day before the local Monday;
  at UTC and west of it they start on the Monday and contain the local day.
\<close>

lemma getWeekDates_east:
  assumes "\<bar>now\<bar> \<le> 8639000000000000" "0 < tza" "tza \<le> msPerDay"
      and "\<not> (0 \<le> getFullYear tza now \<and> getFullYear tza now \<le> 99)"
  shows "\<exists>ts. getWeekDates tza now = Inr (map toDateStr_now ts) \<and> length ts = 7 \<and>
           (\<forall>i<7. Day (ts ! i) = Day (ts ! 0) + int i) \<and> WeekDay (ts ! 0) = 0"
proof -
  let ?M = "weekStart tza now"
  let ?ts = "map (\<lambda>i. (?M + int i) * msPerDay - tza) [0..<7]"
  have z: "\<bar>tza\<bar> \<le> msPerDay" using assms(2,3) by simp
  have a: "getWeekDates tza now = Inr (map toDateStr_now ?ts)"
    using week_general [OF assms(1) z assms(4)] by (simp add: comp_def)
  have d: "Day (?ts ! i) = ?M - 1 + int i" if "i < 7" for i
    using that Day_east [OF assms(2,3), of "?M + int i"] by simp
  have "(?M - 1 + 4) mod 7 = 0" using weekStart_monday [of tza now] by presburger
  then have w: "WeekDay (?ts ! 0) = 0" using d [of 0] by (simp add: WeekDay_def)
  have "\<forall>i<7. Day (?ts ! i) = Day (?ts ! 0) + int i" using d d [of 0] by simp
  then show ?thesis using a w by (intro exI [of _ ?ts]) simp
qed

lemma getWeekDates_west:
  assumes "\<bar>now\<bar> \<le> 8639000000000000" "- msPerDay < tza" "tza \<le> 0"
      and "\<not> (0 \<le> getFullYear tza now \<and> getFullYear tza now \<le> 99)"
  shows "\<exists>ts. getWeekDates tza now = Inr (map toDateStr_now ts) \<and> length ts = 7 \<and>
           (\<forall>i<7. Day (ts ! i) = Day (ts ! 0) + int i) \<and> WeekDay (ts ! 0) = 1 \<and>
           (\<exists>i<7. Day (ts ! i) = Day (LocalTime tza now))"
proof -
  let ?M = "weekStart tza now"
  let ?ts = "map (\<lambda>i. (?M + int i) * msPerDay - tza) [0..<7]"
  let ?j = "nat ((WeekDay (LocalTime tza now) + 6) mod 7)"
  have z: "\<bar>tza\<bar> \<le> msPerDay" using assms(2,3) by simp
  have a: "getWeekDates tza now = Inr (map toDateStr_now ?ts)"
    using week_general [OF assms(1) z assms(4)] by (simp add: comp_def)
  have d: "Day (?ts ! i) = ?M + int i" if "i < 7" for i
    using that Day_west [OF assms(2,3), of "?M + int i"] by simp
  have w: "WeekDay (?ts ! 0) = 1"
    using d [of 0] weekStart_monday [of tza now] by (simp add: WeekDay_def)
  have j: "?j < 7" by simp
  have "Day (?ts ! ?j) = Day (LocalTime tza now)"
    using d [OF j] by (simp add: weekStart_def)
  then have t: "\<exists>i<7. Day (?ts ! i) = Day (LocalTime tza now)" using j by blast
  have "\<forall>i<7. Day (?ts ! i) = Day (?ts ! 0) + int i" using d d [of 0] by simp
  then show ?thesis using a w t by (intro exI [of _ ?ts]) simp
qed

text \<open>
  Claim C3 at a clock one hour ahead of UTC. At local noon of Wednesday 2024-06-12
  \<^verbatim>\<open>getWeekDates\<close> returns the seven dates from 2024-06-09, a Sunday, to 2024-06-15:
  \<^verbatim>\<open>mon\<close> is local midnight of Monday, which is still Sunday in UTC, and \<^verbatim>\<open>toDateStr\<close>
  prints the UTC date. At local noon of Sunday 2024-06-16 it returns the same seven
  dates, which do not contain that day.
\<close>

theorem getWeekDates_east_of_UTC:
  "getWeekDates 3600000 1718190000000 =
     Inr [''2024-06-09'', ''2024-06-10'', ''2024-06-11'', ''2024-06-12'', ''2024-06-13'',
          ''2024-06-14'', ''2024-06-15''] \<and>
   toDateStr_now (LocalTime 3600000 1718190000000) = ''2024-06-12'' \<and>
   getDay 3600000 1718190000000 = 3 \<and>
   toDateStr_now 1717974000000 = ''2024-06-09'' \<and> WeekDay 1717974000000 = 0 \<and>
   getWeekDates 3600000 1718535600000 =
     Inr [''2024-06-09'', ''2024-06-10'', ''2024-06-11'', ''2024-06-12'', ''2024-06-13'',
          ''2024-06-14'', ''2024-06-15''] \<and>
   toDateStr_now (LocalTime 3600000 1718535600000) = ''2024-06-16'' \<and>
   getDay 3600000 1718535600000 = 0"
proof -
  have a: "getWeekDates 3600000 1718190000000 =
          Inr (map (\<lambda>i. toDateStr_now ((19884 + int i) * msPerDay - 3600000)) [0..<7])"
    using week_general [of 1718190000000 3600000]
    by (simp add: week_starts week_years msPerDay_def)
  have b: "getWeekDates 3600000 1718535600000 =
          Inr (map (\<lambda>i. toDateStr_now ((19884 + int i) * msPerDay - 3600000)) [0..<7])"
    using week_general [of 1718535600000 3600000]
    by (simp add: week_starts week_years msPerDay_def)
  have c: "map (\<lambda>i. toDateStr_now ((19884 + int i) * msPerDay - 3600000)) [0..<7] =
             [''2024-06-09'', ''2024-06-10'', ''2024-06-11'', ''2024-06-12'',
              ''2024-06-13'', ''2024-06-14'', ''2024-06-15'']"
    by (simp add: upt_7 msPerDay_def week_strings)
  have d: "getDay 3600000 1718190000000 = 3" "WeekDay 1717974000000 = 0"
      "getDay 3600000 1718535600000 = 0"
    by (simp_all add: getDay_def WeekDay_def Day_def LocalTime_def msPerDay_def)
  show ?thesis
    unfolding a b c by (simp add: d today_strings week_strings)
qed

section \<open>Recording an activity\<close>



lemma logs_logActivity:
  "logs (logActivity c orb s) =
     AList.update (todayStr s)
       (AList.update (c @ '':'' @ orb) (clock s)
          (case map_of (logs s) (todayStr s) of None \<Rightarrow> [] | Some d \<Rightarrow> d))
       (logs s)"
  by (simp add: logActivity_def setTimeout_def Let_def)

lemma clock_logActivity [simp]: "clock (logActivity c orb s) = clock s"
  by (simp add: logActivity_def setTimeout_def Let_def)



text \<open>
  Claim C2 at a clock five hours behind UTC that reads 2024-06-10 23:00, which is
  2024-06-11 04:00 UTC. The local calendar date is 2024-06-10, and the entry of
  \<^verbatim>\<open>logActivity("finance", "Track")\<close> on an empty store goes under the key 2024-06-11:
  \<^verbatim>\<open>toDateStr\<close> prints the UTC date. The completion count of that render is 1.
\<close>

theorem logActivity_key_is_UTC_date:
  "toDateStr_now (LocalTime (- 18000000) 1718078400000) = ''2024-06-10'' \<and>
   logs (rerender True False (logActivity ''finance'' ''Track''
           (mount None None 1718078400000))) =
     [(''2024-06-11'', [(''finance:Track'', 1718078400000)])] \<and>
   completedCount (rerender True False (logActivity ''finance'' ''Track''
           (mount None None 1718078400000))) = 1"
proof -
  let ?s = "mount None None 1718078400000"
  have f: "logs ?s = []" "todayStr ?s = ''2024-06-11''" "clock ?s = 1718078400000"
    by (simp_all add: mount_def Let_def today_strings)
  have a: "toDateStr_now (LocalTime (- 18000000) 1718078400000) = ''2024-06-10''"
    by (rule today_strings)
  have b: "logs (rerender True False (logActivity ''finance'' ''Track'' ?s)) =
             [(''2024-06-11'', [(''finance:Track'', 1718078400000)])]"
    unfolding rerender_fields logs_logActivity f by simp
  have c: "todayStr (rerender True False (logActivity ''finance'' ''Track'' ?s)) =
             ''2024-06-11''"
    by (simp add: f today_strings)
  have "completedCount (rerender True False (logActivity ''finance'' ''Track'' ?s)) = 1"
    unfolding completedCount_def getLoggedCatsToday_def b c by simp
  then show ?thesis using a b by simp
qed

section \<open>Clearing the logs\<close>

text \<open>
  Claim C8. For every prior state in which the settings panel is open, the confirmed
  "clear all data" click makes the log store the empty object and leaves the empty
  object as the stored \<^verbatim>\<open>ritual_logs\<close> item, while the orbital configuration is
  unchanged both in memory and in storage.
\<close>

theorem clear_data_empties_logs_only:
  assumes "showSettings s"
  shows "logs (step (ClickClearData True) s) = [] \<and>
         ls_logs (step (ClickClearData True) s) = Some [] \<and>
         orbitals (step (ClickClearData True) s) = orbitals s \<and>
         ls_orbitals (step (ClickClearData True) s) = ls_orbitals s"
  using assms by (simp add: step_def onClose_def onClearData_def)

theorem clear_data_empties_logs_only_witness:
  "showSettings
     ((mount (Some [(''2024-06-10'', [(''finance:Track'', 1718000000000)])]) None
         1718000000000)\<lparr>showSettings := True\<rparr>) \<and>
   logs (step (ClickClearData True)
     ((mount (Some [(''2024-06-10'', [(''finance:Track'', 1718000000000)])]) None
         1718000000000)\<lparr>showSettings := True\<rparr>)) = [] \<and>
   ls_logs (step (ClickClearData True)
     ((mount (Some [(''2024-06-10'', [(''finance:Track'', 1718000000000)])]) None
         1718000000000)\<lparr>showSettings := True\<rparr>)) = Some [] \<and>
   ls_orbitals (step (ClickClearData True)
     ((mount (Some [(''2024-06-10'', [(''finance:Track'', 1718000000000)])]) None
         1718000000000)\<lparr>showSettings := True\<rparr>)) = Some default_orbitals"
proof -
  let ?s = "(mount (Some [(''2024-06-10'', [(''finance:Track'', 1718000000000)])]) None
               1718000000000)\<lparr>showSettings := True\<rparr>"
  have h: "showSettings ?s" by simp
  have o: "ls_orbitals ?s = Some default_orbitals" by (simp add: mount_def Let_def)
  show ?thesis using h o clear_data_empties_logs_only [OF h] by simp
qed

section \<open>Timers and the long press\<close>

text \<open>
  A press is in progress while a long-press timer is pending. The ids of the pending
  timers are distinct and below the next id to be given out: \<^verbatim>\<open>setTimeout\<close> never
  reuses an id.
\<close>

definition is_LongPress :: "timer \<Rightarrow> bool" where
  "is_LongPress tm = (case callback tm of LongPress i cfg \<Rightarrow> True | _ \<Rightarrow> False)"

definition wf_timers :: "app \<Rightarrow> bool" where
  "wf_timers s \<longleftrightarrow>
     distinct (map tid (timers s)) \<and> (\<forall>tm \<in> set (timers s). tid tm < nextTimerId s)"

lemma longPressFired_fields [simp]:
  "logs (longPressFired idx cfg s) = logs s"
  "justLogged (longPressFired idx cfg s) = justLogged s"
  "nextTimerId (longPressFired idx cfg s) = nextTimerId s"
  "longPressTimer (longPressFired idx cfg s) = longPressTimer s"
  "currentView (longPressFired idx cfg s) = currentView s"
  "orbitals (longPressFired idx cfg s) = orbitals s"
  "clock (longPressFired idx cfg s) = clock s"
  "activeSlice (longPressFired idx cfg s) =
     (if idx < length DEFAULT_CATEGORIES then Some idx else activeSlice s)"
  by (simp_all add: longPressFired_def Let_def)

lemma run_callback_fields [simp]:
  "logs (run_callback cb s) = logs s"
  "nextTimerId (run_callback cb s) = nextTimerId s"
  "longPressTimer (run_callback cb s) = longPressTimer s"
  "currentView (run_callback cb s) = currentView s"
  "orbitals (run_callback cb s) = orbitals s"
  "clock (run_callback cb s) = clock s"
  by (cases cb; simp add: run_callback_def)+

lemma activeSlice_run_callback:
  "activeSlice (run_callback cb s) =
     (case cb of
        LongPress idx cfg \<Rightarrow> if idx < length DEFAULT_CATEGORIES then Some idx else activeSlice s
      | _ \<Rightarrow> activeSlice s)"
  by (cases cb) (simp_all add: run_callback_def)

lemma justLogged_run_callback:
  "justLogged (run_callback cb s) = (if cb = ClearJustLogged then None else justLogged s)"
  by (cases cb) (simp_all add: run_callback_def)

lemma fire_fields [simp]:
  "logs (fire tm s) = logs s"
  "nextTimerId (fire tm s) = nextTimerId s"
  "longPressTimer (fire tm s) = longPressTimer s"
  "currentView (fire tm s) = currentView s"
  "orbitals (fire tm s) = orbitals s"
  "clock (fire tm s) = max (clock s) (deadline tm)"
  by (simp_all add: fire_def)

lemma activeSlice_fire:
  "activeSlice (fire tm s) =
     (case callback tm of
        LongPress idx cfg \<Rightarrow> if idx < length DEFAULT_CATEGORIES then Some idx else activeSlice s
      | _ \<Rightarrow> activeSlice s)"
  by (simp add: fire_def activeSlice_run_callback split: callback.splits)

lemma justLogged_fire:
  "justLogged (fire tm s) = (if callback tm = ClearJustLogged then None else justLogged s)"
  by (simp add: fire_def justLogged_run_callback)

lemma next_due_due: "next_due t ts = Some tm \<Longrightarrow> deadline tm \<le> t"
proof -
  assume a: "next_due t ts = Some tm"
  then obtain d ds where f: "filter (\<lambda>tm. deadline tm \<le> t) ts = d # ds"
    by (auto simp: next_due_def split: list.splits)
  then have "tm \<in> set (d # ds)"
    using a foldl_earliest_mem [of d ds] by (simp add: next_due_def)
  then have "tm \<in> set (filter (\<lambda>tm. deadline tm \<le> t) ts)" using f by simp
  then show ?thesis by simp
qed

lemma next_due_None: "next_due t ts = None \<longleftrightarrow> (\<forall>tm \<in> set ts. \<not> deadline tm \<le> t)"
proof -
  have "next_due t ts = None \<longleftrightarrow> filter (\<lambda>tm. deadline tm \<le> t) ts = []"
    by (simp add: next_due_def split: list.splits)
  then show ?thesis by (simp add: filter_empty_conv)
qed

lemma logs_run_timers [simp]: "logs (run_timers t s) = logs s"
proof (induction t s rule: run_timers.induct)
  case (1 t s)
  show ?case
  proof (cases "next_due t (timers s)")
    case None
    then show ?thesis by (subst run_timers.simps) simp
  next
    case (Some tm)
    then show ?thesis using "1.IH" [OF Some] by (subst run_timers.simps) simp
  qed
qed


lemma setTimeout_fields [simp]:
  "logs (setTimeout cb d s) = logs s"
  "activeSlice (setTimeout cb d s) = activeSlice s"
  "orbitalPositions (setTimeout cb d s) = orbitalPositions s"
  "justLogged (setTimeout cb d s) = justLogged s"
  "longPressTimer (setTimeout cb d s) = longPressTimer s"
  "currentView (setTimeout cb d s) = currentView s"
  "orbitals (setTimeout cb d s) = orbitals s"
  "ls_orbitals (setTimeout cb d s) = ls_orbitals s"
  "clock (setTimeout cb d s) = clock s"
  "nextTimerId (setTimeout cb d s) = Suc (nextTimerId s)"
  "timers (setTimeout cb d s) =
     timers s @ [\<lparr>tid = nextTimerId s, deadline = clock s + d, callback = cb\<rparr>]"
  by (simp_all add: setTimeout_def)

lemma clearTimeout_fields [simp]:
  "logs (clearTimeout r s) = logs s"
  "activeSlice (clearTimeout r s) = activeSlice s"
  "orbitalPositions (clearTimeout r s) = orbitalPositions s"
  "justLogged (clearTimeout r s) = justLogged s"
  "longPressTimer (clearTimeout r s) = longPressTimer s"
  "currentView (clearTimeout r s) = currentView s"
  "orbitals (clearTimeout r s) = orbitals s"
  "clock (clearTimeout r s) = clock s"
  "nextTimerId (clearTimeout r s) = nextTimerId s"
  "timers (clearTimeout r s) =
     (case r of None \<Rightarrow> timers s | Some i \<Rightarrow> filter (\<lambda>tm. tid tm \<noteq> i) (timers s))"
  by (cases r; simp add: clearTimeout_def)+

lemma handlePointerDown_fields [simp]:
  "logs (handlePointerDown idx s) = logs s"
  "activeSlice (handlePointerDown idx s) = activeSlice s"
  "orbitalPositions (handlePointerDown idx s) = orbitalPositions s"
  "justLogged (handlePointerDown idx s) = justLogged s"
  "currentView (handlePointerDown idx s) = currentView s"
  "orbitals (handlePointerDown idx s) = orbitals s"
  "clock (handlePointerDown idx s) = clock s"
  "longPressTimer (handlePointerDown idx s) = Some (nextTimerId s)"
  "nextTimerId (handlePointerDown idx s) = Suc (nextTimerId s)"
  "timers (handlePointerDown idx s) =
     timers s @ [\<lparr>tid = nextTimerId s, deadline = clock s + 380,
                  callback = LongPress idx (orbitals s)\<rparr>]"
  by (simp_all add: handlePointerDown_def Let_def)

lemma handlePointerUp_fields [simp]:
  "logs (handlePointerUp s) = logs s"
  "activeSlice (handlePointerUp s) = activeSlice s"
  "orbitalPositions (handlePointerUp s) = orbitalPositions s"
  "justLogged (handlePointerUp s) = justLogged s"
  "currentView (handlePointerUp s) = currentView s"
  "orbitals (handlePointerUp s) = orbitals s"
  "clock (handlePointerUp s) = clock s"
  "longPressTimer (handlePointerUp s) = longPressTimer s"
  "nextTimerId (handlePointerUp s) = nextTimerId s"
  "timers (handlePointerUp s) =
     (case longPressTimer s of
        None \<Rightarrow> timers s
      | Some i \<Rightarrow> filter (\<lambda>tm. tid tm \<noteq> i) (timers s))"
  by (simp_all add: handlePointerUp_def)

lemma handlePointerLeave_fields [simp]:
  "logs (handlePointerLeave s) = logs s"
  "activeSlice (handlePointerLeave s) = activeSlice s"
  "orbitalPositions (handlePointerLeave s) = orbitalPositions s"
  "justLogged (handlePointerLeave s) = justLogged s"
  "currentView (handlePointerLeave s) = currentView s"
  "orbitals (handlePointerLeave s) = orbitals s"
  "clock (handlePointerLeave s) = clock s"
  "longPressTimer (handlePointerLeave s) = longPressTimer s"
  "nextTimerId (handlePointerLeave s) = nextTimerId s"
  "timers (handlePointerLeave s) =
     (case longPressTimer s of
        None \<Rightarrow> timers s
      | Some i \<Rightarrow> filter (\<lambda>tm. tid tm \<noteq> i) (timers s))"
  by (simp_all add: handlePointerLeave_def)

lemma logActivity_fields [simp]:
  "activeSlice (logActivity c orb s) = None"
  "orbitalPositions (logActivity c orb s) = orbitalPositions s"
  "justLogged (logActivity c orb s) = Some (c, orb)"
  "currentView (logActivity c orb s) = currentView s"
  "orbitals (logActivity c orb s) = orbitals s"
  "longPressTimer (logActivity c orb s) = longPressTimer s"
  "nextTimerId (logActivity c orb s) = Suc (nextTimerId s)"
  "timers (logActivity c orb s) =
     timers s @ [\<lparr>tid = nextTimerId s, deadline = clock s + 2000,
                  callback = ClearJustLogged\<rparr>]"
  by (simp_all add: logActivity_def Let_def)

lemma handleTouchEnd_fields [simp]:
  "logs (handleTouchEnd x s) = logs s"
  "activeSlice (handleTouchEnd x s) = activeSlice s"
  "orbitalPositions (handleTouchEnd x s) = orbitalPositions s"
  "justLogged (handleTouchEnd x s) = justLogged s"
  "timers (handleTouchEnd x s) = timers s"
  "nextTimerId (handleTouchEnd x s) = nextTimerId s"
  by (cases "dragStartX s"; simp add: handleTouchEnd_def Let_def)+

lemma handleSave_fields [simp]:
  "logs (handleSave ev s) = logs s"
  "activeSlice (handleSave ev s) = activeSlice s"
  "orbitalPositions (handleSave ev s) = orbitalPositions s"
  "justLogged (handleSave ev s) = justLogged s"
  "nextTimerId (handleSave ev s) = Suc (nextTimerId s)"
  "timers (handleSave ev s) =
     timers s @ [\<lparr>tid = nextTimerId s, deadline = clock s + 1500, callback = ClearSaved\<rparr>]"
  by (simp_all add: handleSave_def)

lemma activeSlice_step_pointer:
  "e \<in> {PointerDown i, PointerUp, PointerLeave, PointerCancel} \<Longrightarrow>
   activeSlice (step e s) = activeSlice s \<and>
   orbitalPositions (step e s) = orbitalPositions s \<and>
   currentView (step e s) = currentView s \<and> logs (step e s) = logs s"
  by (auto simp: step_def)

lemma activeSlice_step_None:
  assumes "activeSlice s \<noteq> None" "activeSlice (step e s) = None"
  shows "e = ClickBackdrop \<or> (\<exists>k. e = ClickOrbital k)"
  using assms
  by (cases e)
     (simp_all add: step_def handleTouchStart_def onClose_def onClearData_def
       split: if_splits)


lemma run_timers_None: "next_due t (timers s) = None \<Longrightarrow> run_timers t s = s"
  by (subst run_timers.simps) simp

lemma run_timers_Some:
  "next_due t (timers s) = Some tm \<Longrightarrow> run_timers t s = run_timers t (fire tm s)"
  by (subst run_timers.simps) simp

lemma run_timers_keeps:
  "longPressTimer (run_timers t s) = longPressTimer s \<and>
   nextTimerId (run_timers t s) = nextTimerId s \<and>
   currentView (run_timers t s) = currentView s \<and>
   orbitals (run_timers t s) = orbitals s"
proof (induction t s rule: run_timers.induct)
  case (1 t s)
  show ?case
  proof (cases "next_due t (timers s)")
    case None
    then show ?thesis by (simp add: run_timers_None)
  next
    case (Some tm)
    then show ?thesis using "1.IH" [OF Some] by (simp add: run_timers_Some [OF Some])
  qed
qed

lemma run_timers_fields [simp]:
  "longPressTimer (run_timers t s) = longPressTimer s"
  "nextTimerId (run_timers t s) = nextTimerId s"
  "currentView (run_timers t s) = currentView s"
  "orbitals (run_timers t s) = orbitals s"
  using run_timers_keeps [of t s] by simp_all

lemma timers_run_timers_subset: "set (timers (run_timers t s)) \<subseteq> set (timers s)"
proof (induction t s rule: run_timers.induct)
  case (1 t s)
  show ?case
  proof (cases "next_due t (timers s)")
    case None
    then show ?thesis by (simp add: run_timers_None)
  next
    case (Some tm)
    have "set (timers (fire tm s)) \<subseteq> set (timers s)" by (auto simp: timers_fire)
    then show ?thesis using "1.IH" [OF Some] by (auto simp: run_timers_Some [OF Some])
  qed
qed

lemma activeSlice_run_timers_idle:
  assumes "\<forall>tm \<in> set (timers s). is_LongPress tm \<longrightarrow> \<not> deadline tm \<le> t"
  shows "activeSlice (run_timers t s) = activeSlice s \<and>
         orbitalPositions (run_timers t s) = orbitalPositions s"
  using assms
proof (induction t s rule: run_timers.induct)
  case (1 t s)
  show ?case
  proof (cases "next_due t (timers s)")
    case None
    then show ?thesis by (simp add: run_timers_None)
  next
    case (Some tm)
    have tm: "tm \<in> set (timers s)" "deadline tm \<le> t"
      using Some next_due_mem next_due_due by blast+
    then have n: "\<not> is_LongPress tm" using "1.prems" by blast
    have a: "activeSlice (fire tm s) = activeSlice s"
      using n by (simp add: activeSlice_fire is_LongPress_def split: callback.splits)
    have p: "orbitalPositions (fire tm s) = orbitalPositions s"
      using n by (cases "callback tm") (simp_all add: fire_def run_callback_def is_LongPress_def)
    have "\<forall>x \<in> set (timers (fire tm s)). is_LongPress x \<longrightarrow> \<not> deadline x \<le> t"
      using "1.prems" by (simp add: timers_fire)
    then show ?thesis using "1.IH" [OF Some] a p by (simp add: run_timers_Some [OF Some])
  qed
qed


lemma tid_inj:
  "distinct (map tid ts) \<Longrightarrow> x \<in> set ts \<Longrightarrow> y \<in> set ts \<Longrightarrow> tid x = tid y \<Longrightarrow> x = y"
  by (auto simp: distinct_map inj_on_def)

lemma long_press_fires:
  assumes "tm0 \<in> set (timers s)" "callback tm0 = LongPress i cfg"
      and "i < length DEFAULT_CATEGORIES" "deadline tm0 \<le> t"
      and "\<forall>tm \<in> set (timers s). is_LongPress tm \<longrightarrow> tm = tm0"
      and "distinct (map tid (timers s))"
  shows "activeSlice (run_timers t s) = Some i"
  using assms
proof (induction t s rule: run_timers.induct)
  case (1 t s)
  have "next_due t (timers s) \<noteq> None"
    using "1.prems"(1,4) by (auto simp: next_due_None)
  then obtain tm where Some: "next_due t (timers s) = Some tm" by blast
  have tm: "tm \<in> set (timers s)" using Some by (rule next_due_mem)
  show ?case
  proof (cases "tm = tm0")
    case True
    have a: "activeSlice (fire tm s) = Some i"
      using True "1.prems"(2,3) by (simp add: activeSlice_fire)
    have "\<forall>x \<in> set (timers (fire tm s)). \<not> is_LongPress x"
      using "1.prems"(5) True by (auto simp: timers_fire)
    then have "activeSlice (run_timers t (fire tm s)) = activeSlice (fire tm s)"
      using activeSlice_run_timers_idle [of "fire tm s" t] by blast
    then show ?thesis using a by (simp add: run_timers_Some [OF Some])
  next
    case False
    then have "tid tm0 \<noteq> tid tm"
      using tid_inj [OF "1.prems"(6) "1.prems"(1) tm] by blast
    then have m: "tm0 \<in> set (timers (fire tm s))"
      using "1.prems"(1) by (simp add: timers_fire)
    have o: "\<forall>x \<in> set (timers (fire tm s)). is_LongPress x \<longrightarrow> x = tm0"
      using "1.prems"(5) by (simp add: timers_fire)
    have d: "distinct (map tid (timers (fire tm s)))"
      using "1.prems"(6) by (simp add: timers_fire distinct_map_filter)
    show ?thesis
      using "1.IH" [OF Some m "1.prems"(2,3,4) o d] by (simp add: run_timers_Some [OF Some])
  qed
qed

lemma advance_fields [simp]:
  "logs (advance t s) = logs s"
  "activeSlice (advance t s) = activeSlice (run_timers t s)"
  "orbitalPositions (advance t s) = orbitalPositions (run_timers t s)"
  "justLogged (advance t s) = justLogged (run_timers t s)"
  "timers (advance t s) = timers (run_timers t s)"
  "longPressTimer (advance t s) = longPressTimer s"
  "nextTimerId (advance t s) = nextTimerId s"
  "currentView (advance t s) = currentView s"
  "orbitals (advance t s) = orbitals s"
  by (simp_all add: advance_def Let_def)

lemma step_PointerDown:
  "step (PointerDown i) s =
     (if currentView s = 0 \<and> i < length DEFAULT_CATEGORIES then handlePointerDown i s else s)"
  by (simp add: step_def)

lemma timers_step_release:
  "e \<in> {PointerUp, PointerLeave, PointerCancel} \<Longrightarrow>
   timers (step e s) =
     (if currentView s = 0
      then (case longPressTimer s of
              None \<Rightarrow> timers s
            | Some k \<Rightarrow> filter (\<lambda>tm. tid tm \<noteq> k) (timers s))
      else timers s)"
  by (auto simp: step_def)

lemma timers_step_release_subset:
  assumes "e \<in> {PointerUp, PointerLeave, PointerCancel}"
  shows "set (timers (step e s)) \<subseteq> set (timers s)"
  unfolding timers_step_release [OF assms] by (cases "longPressTimer s") auto

lemma release_idle:
  assumes idle: "\<forall>tm \<in> set (timers s). \<not> is_LongPress tm"
      and e: "e \<in> {PointerUp, PointerLeave, PointerCancel}"
      and t1: "t1 < clock s + 380"
  shows "activeSlice (at_time t1 e (step (PointerDown i) s)) = activeSlice s \<and>
         orbitalPositions (at_time t1 e (step (PointerDown i) s)) = orbitalPositions s \<and>
         logs (at_time t1 e (step (PointerDown i) s)) = logs s \<and>
         (\<forall>tm \<in> set (timers (at_time t1 e (step (PointerDown i) s))). \<not> is_LongPress tm)"
proof -
  define s1 where "s1 = step (PointerDown i) s"
  define a where "a = advance t1 s1"
  let ?new = "\<lparr>tid = nextTimerId s, deadline = clock s + 380,
               callback = LongPress i (orbitals s)\<rparr>"
  have p: "activeSlice s1 = activeSlice s" "orbitalPositions s1 = orbitalPositions s"
      "logs s1 = logs s" "currentView s1 = currentView s"
    by (simp_all add: s1_def step_PointerDown)
  have new: "is_LongPress ?new" "\<not> deadline ?new \<le> t1" "tid ?new = nextTimerId s"
    using t1 by (simp_all add: is_LongPress_def)
  have ts1: "set (timers s1) \<subseteq> insert ?new (set (timers s))"
    by (auto simp: s1_def step_PointerDown)
  have nd: "\<forall>tm \<in> set (timers s1). is_LongPress tm \<longrightarrow> \<not> deadline tm \<le> t1"
    using idle new(2) ts1 by blast
  have act: "activeSlice a = activeSlice s" "orbitalPositions a = orbitalPositions s"
      "logs a = logs s"
    using activeSlice_run_timers_idle [OF nd] p by (simp_all add: a_def)
  have sub: "set (timers a) \<subseteq> insert ?new (set (timers s))"
    using timers_run_timers_subset [of t1 s1] ts1 by (auto simp: a_def)
  have rest: "\<forall>tm \<in> set (timers (step e a)). \<not> is_LongPress tm"
  proof (cases "currentView s = 0 \<and> i < length DEFAULT_CATEGORIES")
    case True
    then have lp: "longPressTimer a = Some (nextTimerId s)" "currentView a = 0"
      by (simp_all add: a_def s1_def step_PointerDown)
    have "timers (step e a) = filter (\<lambda>tm. tid tm \<noteq> nextTimerId s) (timers a)"
      by (simp add: timers_step_release [OF e] lp)
    then have "set (timers (step e a)) \<subseteq> set (timers s)"
      using sub new(3) by auto
    then show ?thesis using idle by blast
  next
    case False
    then have "s1 = s" by (auto simp: s1_def step_PointerDown)
    then have "set (timers a) \<subseteq> set (timers s)"
      using timers_run_timers_subset [of t1 s] by (simp add: a_def)
    then have "set (timers (step e a)) \<subseteq> set (timers s)"
      using timers_step_release_subset [OF e, of a] by blast
    then show ?thesis using idle by blast
  qed
  have "activeSlice (step e a) = activeSlice a \<and>
        orbitalPositions (step e a) = orbitalPositions a \<and> logs (step e a) = logs a"
    using activeSlice_step_pointer [of e i a] e by auto
  then show ?thesis using act rest by (simp add: at_time_def a_def s1_def)
qed

lemma categories_8 [simp]: "length DEFAULT_CATEGORIES = 8"
  by (simp add: DEFAULT_CATEGORIES_def)

text \<open>
  A single press. Take a state with no press in progress and well-formed timers. A
  pointer-down on slice \<open>i\<close> followed by a pointer-up, pointer-leave or
  pointer-cancel before 380 ms have passed activates nothing and writes nothing: at
  every later clock reading the active slice, the orbital positions and the log store
  are those of the state before the press. A pointer-down on a slice of the pie view
  with no further input activates exactly slice \<open>i\<close> once 380 ms have passed.
\<close>

lemma single_press_deadline:
  assumes idle: "\<forall>tm \<in> set (timers s). \<not> is_LongPress tm"
      and wf: "wf_timers s"
  shows "(e \<in> {PointerUp, PointerLeave, PointerCancel} \<and> t1 < clock s + 380 \<longrightarrow>
            (\<forall>t. activeSlice (advance t (at_time t1 e (step (PointerDown i) s))) = activeSlice s \<and>
                 orbitalPositions (advance t (at_time t1 e (step (PointerDown i) s))) =
                   orbitalPositions s \<and>
                 logs (advance t (at_time t1 e (step (PointerDown i) s))) = logs s)) \<and>
         (currentView s = 0 \<and> i < length DEFAULT_CATEGORIES \<and> clock s + 380 \<le> t2 \<longrightarrow>
            activeSlice (advance t2 (step (PointerDown i) s)) = Some i)"
proof (intro conjI impI allI)
  fix t
  assume a: "e \<in> {PointerUp, PointerLeave, PointerCancel} \<and> t1 < clock s + 380"
  define r where "r = at_time t1 e (step (PointerDown i) s)"
  have r: "activeSlice r = activeSlice s" "orbitalPositions r = orbitalPositions s"
      "logs r = logs s" "\<forall>tm \<in> set (timers r). \<not> is_LongPress tm"
    using release_idle [OF idle, of e t1 i] a by (simp_all add: r_def)
  have "activeSlice (run_timers t r) = activeSlice r \<and>
        orbitalPositions (run_timers t r) = orbitalPositions r"
    using r(4) by (intro activeSlice_run_timers_idle) blast
  then show "activeSlice (advance t r) = activeSlice s"
    "orbitalPositions (advance t r) = orbitalPositions s" "logs (advance t r) = logs s"
    using r by simp_all
next
  assume a: "currentView s = 0 \<and> i < length DEFAULT_CATEGORIES \<and> clock s + 380 \<le> t2"
  let ?new = "\<lparr>tid = nextTimerId s, deadline = clock s + 380,
               callback = LongPress i (orbitals s)\<rparr>"
  let ?s1 = "handlePointerDown i s"
  have s1: "step (PointerDown i) s = ?s1" using a by (simp add: step_PointerDown)
  have m: "?new \<in> set (timers ?s1)" by simp
  have o: "\<forall>tm \<in> set (timers ?s1). is_LongPress tm \<longrightarrow> tm = ?new"
    using idle by auto
  have d: "distinct (map tid (timers ?s1))"
    using wf by (auto simp: wf_timers_def)
  have "activeSlice (run_timers t2 ?s1) = Some i"
    using a by (intro long_press_fires [OF m _ _ _ o d, of i "orbitals s"]) simp_all
  then show "activeSlice (advance t2 (step (PointerDown i) s)) = Some i"
    by (simp add: s1)
qed


lemma mount_fields [simp]:
  "timers (mount l ob now) = []"
  "nextTimerId (mount l ob now) = 0"
  "clock (mount l ob now) = now"
  "currentView (mount l ob now) = 0"
  "activeSlice (mount l ob now) = None"
  "justLogged (mount l ob now) = None"
  "longPressTimer (mount l ob now) = None"
  "logs (mount l ob now) = (case l of None \<Rightarrow> [] | Some x \<Rightarrow> x)"
  "orbitals (mount l ob now) = (case ob of None \<Rightarrow> default_orbitals | Some x \<Rightarrow> x)"
  by (simp_all add: mount_def Let_def)

lemma wf_timers_mount: "wf_timers (mount l ob now)"
  by (simp add: wf_timers_def)

lemma held_active:
  "activeSlice (advance 380 (step (PointerDown 2) (mount None None 0))) = Some 2"
proof -
  let ?s = "mount None None 0"
  let ?new = "\<lparr>tid = 0, deadline = 380, callback = LongPress 2 default_orbitals\<rparr>"
  have t: "timers (handlePointerDown 2 ?s) = [?new]" by simp
  have "activeSlice (run_timers 380 (handlePointerDown 2 ?s)) = Some 2"
    by (rule long_press_fires [of ?new _ 2 default_orbitals]) (simp_all add: t is_LongPress_def)
  then show ?thesis by (simp add: step_PointerDown)
qed

text \<open>
  Claim C10. A pointer-up, pointer-leave or pointer-cancel changes neither the active
  slice nor the orbital positions nor the view, so orbitals that are shown stay shown.
  An input event that takes an active slice back to none is a click on the backdrop or
  on an orbital, and no timer does so; in the pie view the backdrop click and the
  click on one of the slice's orbitals do return to no active slice.
\<close>

theorem active_until_dismissed:
  "(e \<in> {PointerUp, PointerLeave, PointerCancel} \<longrightarrow>
      activeSlice (step e s) = activeSlice s \<and>
      orbitalPositions (step e s) = orbitalPositions s \<and>
      currentView (step e s) = currentView s) \<and>
   (activeSlice s \<noteq> None \<and> activeSlice (step e s) = None \<longrightarrow>
      e = ClickBackdrop \<or> (\<exists>k. e = ClickOrbital k)) \<and>
   (activeSlice s \<noteq> None \<longrightarrow> activeSlice (fire tm s) \<noteq> None) \<and>
   (activeSlice s \<noteq> None \<and> currentView s = 0 \<longrightarrow>
      activeSlice (step ClickBackdrop s) = None) \<and>
   (activeSlice s = Some a \<and> currentView s = 0 \<and> a < length DEFAULT_CATEGORIES \<and>
    k < length (orbs_of (orbitals s) (DEFAULT_CATEGORIES ! a)) \<longrightarrow>
      activeSlice (step (ClickOrbital k) s) = None)"
proof (intro conjI)
  show "e \<in> {PointerUp, PointerLeave, PointerCancel} \<longrightarrow>
      activeSlice (step e s) = activeSlice s \<and>
      orbitalPositions (step e s) = orbitalPositions s \<and>
      currentView (step e s) = currentView s"
    using activeSlice_step_pointer [of e 0 s] by auto
  show "activeSlice s \<noteq> None \<and> activeSlice (step e s) = None \<longrightarrow>
      e = ClickBackdrop \<or> (\<exists>k. e = ClickOrbital k)"
    using activeSlice_step_None [of s e] by blast
  show "activeSlice s \<noteq> None \<longrightarrow> activeSlice (fire tm s) \<noteq> None"
    by (simp add: activeSlice_fire split: callback.splits)
  show "activeSlice s \<noteq> None \<and> currentView s = 0 \<longrightarrow>
      activeSlice (step ClickBackdrop s) = None"
    by (simp add: step_def dismissOrbitals_def)
  show "activeSlice s = Some a \<and> currentView s = 0 \<and> a < length DEFAULT_CATEGORIES \<and>
    k < length (orbs_of (orbitals s) (DEFAULT_CATEGORIES ! a)) \<longrightarrow>
      activeSlice (step (ClickOrbital k) s) = None"
    by (simp add: step_def Let_def)
qed

theorem active_until_dismissed_witness:
  "activeSlice (advance 380 (step (PointerDown 2) (mount None None 0))) \<noteq> None \<and>
   activeSlice (step PointerUp (advance 380 (step (PointerDown 2) (mount None None 0)))) =
     Some 2 \<and>
   activeSlice (step ClickBackdrop (advance 380 (step (PointerDown 2) (mount None None 0)))) =
     None"
proof -
  let ?s = "advance 380 (step (PointerDown 2) (mount None None 0))"
  have v: "currentView ?s = 0" by (simp add: step_PointerDown)
  show ?thesis
    using held_active v active_until_dismissed [of PointerUp ?s "\<lparr>tid = 0, deadline = 0, callback = ClearJustLogged\<rparr>" 2 0]
      active_until_dismissed [of ClickBackdrop ?s "\<lparr>tid = 0, deadline = 0, callback = ClearJustLogged\<rparr>" 2 0]
    by simp
qed

lemma clock_advance [simp]: "clock (advance t s) = max (clock (run_timers t s)) t"
  by (simp add: advance_def Let_def)

text \<open>
  Claim C4 on two presses with no release between them, as two fingers give: a
  pointer-down on slice 0 at 0 ms and one on slice 1 at 100 ms. \<^verbatim>\<open>handlePointerDown\<close>
  overwrites the ref and clears nothing, so both timers are pending, and the first
  fires at 380 ms and activates slice 0. A pointer-up at 150 ms clears only the second
  timer, whose id the ref holds, and the first still fires.
\<close>

theorem second_press_keeps_first_timer:
  "(let s2 = at_time 100 (PointerDown 1) (step (PointerDown 0) (mount None None 0));
        s3 = at_time 150 PointerUp s2
    in timers s2 =
         [\<lparr>tid = 0, deadline = 380, callback = LongPress 0 default_orbitals\<rparr>,
          \<lparr>tid = 1, deadline = 480, callback = LongPress 1 default_orbitals\<rparr>] \<and>
       activeSlice (advance 380 s2) = Some 0 \<and>
       timers s3 = [\<lparr>tid = 0, deadline = 380, callback = LongPress 0 default_orbitals\<rparr>] \<and>
       activeSlice (advance 380 s3) = Some 0)"
proof -
  let ?tm0 = "\<lparr>tid = 0, deadline = 380, callback = LongPress 0 default_orbitals\<rparr>"
  let ?tm1 = "\<lparr>tid = 1, deadline = 480, callback = LongPress 1 default_orbitals\<rparr>"
  define s1 where "s1 = step (PointerDown 0) (mount None None 0)"
  define s2 where "s2 = at_time 100 (PointerDown 1) s1"
  define s3 where "s3 = at_time 150 PointerUp s2"
  have s1: "timers s1 = [?tm0]" "currentView s1 = 0" "clock s1 = 0" "nextTimerId s1 = 1"
      "orbitals s1 = default_orbitals"
    by (simp_all add: s1_def step_PointerDown)
  have r1: "run_timers 100 s1 = s1"
    by (rule run_timers_None) (simp add: s1 next_due_def)
  have s2: "timers s2 = [?tm0, ?tm1]" "currentView s2 = 0" "longPressTimer s2 = Some 1"
    by (simp_all add: s2_def at_time_def step_PointerDown r1 s1)
  have n2: "next_due 380 (timers s2) = Some ?tm0" by (simp add: s2 next_due_def)
  have f2: "timers (fire ?tm0 s2) = [?tm1]" by (simp add: timers_fire s2)
  have "run_timers 380 (fire ?tm0 s2) = fire ?tm0 s2"
    by (rule run_timers_None) (simp add: f2 next_due_def)
  then have a2: "activeSlice (advance 380 s2) = Some 0"
    by (simp add: run_timers_Some [OF n2] activeSlice_fire)
  have r2: "run_timers 150 s2 = s2"
    by (rule run_timers_None) (simp add: s2 next_due_def)
  have s3: "timers s3 = [?tm0]"
    by (simp add: s3_def at_time_def timers_step_release r2 s2)
  have n3: "next_due 380 (timers s3) = Some ?tm0" by (simp add: s3 next_due_def)
  have "run_timers 380 (fire ?tm0 s3) = fire ?tm0 s3"
    by (rule run_timers_None) (simp add: timers_fire s3 next_due_def)
  then have a3: "activeSlice (advance 380 s3) = Some 0"
    by (simp add: run_timers_Some [OF n3] activeSlice_fire)
  show ?thesis
    using s2(1) a2 s3 a3 by (simp add: Let_def s1_def s2_def s3_def)
qed


lemma justLogged_run_timers_None:
  "justLogged s = None \<Longrightarrow> justLogged (run_timers t s) = None"
proof (induction t s rule: run_timers.induct)
  case (1 t s)
  show ?case
  proof (cases "next_due t (timers s)")
    case None
    then show ?thesis using "1.prems" by (simp add: run_timers_None)
  next
    case (Some tm)
    have "justLogged (fire tm s) = None" using "1.prems" by (simp add: justLogged_fire)
    then show ?thesis using "1.IH" [OF Some] by (simp add: run_timers_Some [OF Some])
  qed
qed

lemma justLogged_run_timers_kept:
  assumes "\<forall>tm \<in> set (timers s). callback tm = ClearJustLogged \<longrightarrow> \<not> deadline tm \<le> t"
  shows "justLogged (run_timers t s) = justLogged s"
  using assms
proof (induction t s rule: run_timers.induct)
  case (1 t s)
  show ?case
  proof (cases "next_due t (timers s)")
    case None
    then show ?thesis by (simp add: run_timers_None)
  next
    case (Some tm)
    have tm: "tm \<in> set (timers s)" "deadline tm \<le> t"
      using Some next_due_mem next_due_due by blast+
    then have n: "callback tm \<noteq> ClearJustLogged" using "1.prems" by blast
    have "\<forall>x \<in> set (timers (fire tm s)). callback x = ClearJustLogged \<longrightarrow> \<not> deadline x \<le> t"
      using "1.prems" by (simp add: timers_fire)
    then show ?thesis
      using "1.IH" [OF Some] n by (simp add: run_timers_Some [OF Some] justLogged_fire)
  qed
qed

lemma clear_fires:
  assumes "tm0 \<in> set (timers s)" "callback tm0 = ClearJustLogged" "deadline tm0 \<le> t"
      and "distinct (map tid (timers s))"
  shows "justLogged (run_timers t s) = None"
  using assms
proof (induction t s rule: run_timers.induct)
  case (1 t s)
  have "next_due t (timers s) \<noteq> None"
    using "1.prems"(1,3) by (auto simp: next_due_None)
  then obtain tm where Some: "next_due t (timers s) = Some tm" by blast
  have tm: "tm \<in> set (timers s)" using Some by (rule next_due_mem)
  show ?case
  proof (cases "callback tm = ClearJustLogged")
    case True
    then have "justLogged (fire tm s) = None" by (simp add: justLogged_fire)
    then show ?thesis
      using justLogged_run_timers_None by (simp add: run_timers_Some [OF Some])
  next
    case False
    then have "tm \<noteq> tm0" using "1.prems"(2) by auto
    then have "tid tm0 \<noteq> tid tm"
      using tid_inj [OF "1.prems"(4) "1.prems"(1) tm] by blast
    then have m: "tm0 \<in> set (timers (fire tm s))"
      using "1.prems"(1) by (simp add: timers_fire)
    have d: "distinct (map tid (timers (fire tm s)))"
      using "1.prems"(4) by (simp add: timers_fire distinct_map_filter)
    show ?thesis
      using "1.IH" [OF Some m "1.prems"(2,3) d] by (simp add: run_timers_Some [OF Some])
  qed
qed

text \<open>
  Claim C7 on a tap beside a held slice. One finger goes down on slice 2 at 0 ms, a
  second on slice 5 at 50 ms, and the first is lifted at 250 ms, before its deadline.
  The pointer-up clears the timer of slice 5, whose id the ref holds, and leaves the
  timer of slice 2 pending: slice 2 is activated at 380 ms although its press ended as
  a short tap, and slice 5, still held, is never activated.
\<close>

theorem tap_beside_a_held_slice:
  "(let s3 = at_time 250 PointerUp
               (at_time 50 (PointerDown 5) (step (PointerDown 2) (mount None None 0)))
    in activeSlice s3 = None \<and>
       timers s3 = [\<lparr>tid = 0, deadline = 380, callback = LongPress 2 default_orbitals\<rparr>] \<and>
       activeSlice (advance 380 s3) = Some 2 \<and>
       timers (advance 380 s3) = [] \<and>
       activeSlice (advance 5000 s3) = Some 2)"
proof -
  let ?tm0 = "\<lparr>tid = 0, deadline = 380, callback = LongPress 2 default_orbitals\<rparr>"
  let ?tm1 = "\<lparr>tid = 1, deadline = 430, callback = LongPress 5 default_orbitals\<rparr>"
  define s1 where "s1 = step (PointerDown 2) (mount None None 0)"
  define s2 where "s2 = at_time 50 (PointerDown 5) s1"
  define s3 where "s3 = at_time 250 PointerUp s2"
  have s1: "timers s1 = [?tm0]" "currentView s1 = 0" "clock s1 = 0" "nextTimerId s1 = 1"
      "orbitals s1 = default_orbitals" "activeSlice s1 = None"
    by (simp_all add: s1_def step_PointerDown)
  have r1: "run_timers 50 s1 = s1"
    by (rule run_timers_None) (simp add: s1 next_due_def)
  have s2: "timers s2 = [?tm0, ?tm1]" "currentView s2 = 0" "longPressTimer s2 = Some 1"
      "activeSlice s2 = None"
    by (simp_all add: s2_def at_time_def step_PointerDown r1 s1)
  have r2: "run_timers 250 s2 = s2"
    by (rule run_timers_None) (simp add: s2 next_due_def)
  have s3: "timers s3 = [?tm0]" "activeSlice s3 = None"
    by (simp_all add: s3_def at_time_def timers_step_release r2 s2 step_def)
  have n3: "next_due t (timers s3) = Some ?tm0" if "380 \<le> t" for t
    using that by (simp add: s3 next_due_def)
  have f3: "run_timers t (fire ?tm0 s3) = fire ?tm0 s3" for t
    by (rule run_timers_None) (simp add: timers_fire s3 next_due_def)
  have a: "activeSlice (advance t s3) = Some 2" "timers (advance t s3) = []" if "380 \<le> t" for t
    using that by (simp_all add: run_timers_Some [OF n3] f3 activeSlice_fire timers_fire s3)
  show ?thesis
    using s3 a [of 380] a(1) [of 5000] by (simp add: Let_def s1_def s2_def s3_def)
qed

section \<open>The notification\<close>

text \<open>
  Claim C5 as the code has it. In a state with well-formed timers, a call of
  \<^verbatim>\<open>logActivity(c, o)\<close> shows the notification \<open>(c, o)\<close> and adds a clear timer due
  2000 ms later to the pending timers, none of which it cancels. With no further
  input the notification stays while every pending clear timer is still to come, and
  it is cleared once any of them is due, that of an earlier call included; so it is
  cleared 2000 ms after the call at the latest.
\<close>

theorem logActivity_notification:
  assumes "wf_timers s"
  shows "justLogged (logActivity c orb s) = Some (c, orb) \<and>
         timers (logActivity c orb s) =
           timers s @ [\<lparr>tid = nextTimerId s, deadline = clock s + 2000,
                        callback = ClearJustLogged\<rparr>] \<and>
         (\<forall>t. (\<forall>tm \<in> set (timers (logActivity c orb s)).
                  callback tm = ClearJustLogged \<longrightarrow> t < deadline tm) \<longrightarrow>
              justLogged (advance t (rerender True False (logActivity c orb s))) =
                Some (c, orb)) \<and>
         (\<forall>t. (\<exists>tm \<in> set (timers (logActivity c orb s)).
                  callback tm = ClearJustLogged \<and> deadline tm \<le> t) \<longrightarrow>
              justLogged (advance t (rerender True False (logActivity c orb s))) = None) \<and>
         (\<forall>t. clock s + 2000 \<le> t \<longrightarrow>
              justLogged (advance t (rerender True False (logActivity c orb s))) = None)"
proof -
  define s' where "s' = rerender True False (logActivity c orb s)"
  let ?new = "\<lparr>tid = nextTimerId s, deadline = clock s + 2000, callback = ClearJustLogged\<rparr>"
  have t': "timers s' = timers s @ [?new]" and j: "justLogged s' = Some (c, orb)"
    by (simp_all add: s'_def)
  have d: "distinct (map tid (timers s'))"
    using assms by (auto simp: t' wf_timers_def)
  have kept: "justLogged (advance t s') = Some (c, orb)"
    if "\<forall>tm \<in> set (timers s'). callback tm = ClearJustLogged \<longrightarrow> t < deadline tm" for t
  proof -
    have "\<forall>tm \<in> set (timers s'). callback tm = ClearJustLogged \<longrightarrow> \<not> deadline tm \<le> t"
      using that by auto
    then show ?thesis using justLogged_run_timers_kept [of s' t] j by simp
  qed
  have cleared: "justLogged (advance t s') = None"
    if "\<exists>tm \<in> set (timers s'). callback tm = ClearJustLogged \<and> deadline tm \<le> t" for t
    using that clear_fires [OF _ _ _ d] by auto
  have own: "justLogged (advance t s') = None" if "clock s + 2000 \<le> t" for t
    using that by (intro cleared) (simp add: t')
  show ?thesis
    using kept cleared own by (simp add: s'_def)
qed


theorem logActivity_notification_witness:
  "timers (advance 1000 (rerender True False
      (logActivity ''finance'' ''Track'' (mount None None 0)))) =
     [\<lparr>tid = 0, deadline = 2000, callback = ClearJustLogged\<rparr>] \<and>
   wf_timers (advance 1000 (rerender True False
      (logActivity ''finance'' ''Track'' (mount None None 0)))) \<and>
   justLogged (logActivity ''art'' ''Paint'' (advance 1000 (rerender True False
      (logActivity ''finance'' ''Track'' (mount None None 0))))) = Some (''art'', ''Paint'') \<and>
   timers (logActivity ''art'' ''Paint'' (advance 1000 (rerender True False
      (logActivity ''finance'' ''Track'' (mount None None 0))))) =
     [\<lparr>tid = 0, deadline = 2000, callback = ClearJustLogged\<rparr>,
      \<lparr>tid = 1, deadline = 3000, callback = ClearJustLogged\<rparr>] \<and>
   justLogged (advance 1999 (rerender True False (logActivity ''art'' ''Paint''
      (advance 1000 (rerender True False
         (logActivity ''finance'' ''Track'' (mount None None 0))))))) =
     Some (''art'', ''Paint'') \<and>
   justLogged (advance 2000 (rerender True False (logActivity ''art'' ''Paint''
      (advance 1000 (rerender True False
         (logActivity ''finance'' ''Track'' (mount None None 0))))))) = None"
proof -
  let ?c0 = "\<lparr>tid = 0, deadline = 2000, callback = ClearJustLogged\<rparr>"
  let ?c1 = "\<lparr>tid = 1, deadline = 3000, callback = ClearJustLogged\<rparr>"
  define s1 where "s1 = rerender True False (logActivity ''finance'' ''Track'' (mount None None 0))"
  define s where "s = advance 1000 s1"
  define L where "L = logActivity ''art'' ''Paint'' s"
  have s1: "timers s1 = [?c0]" "nextTimerId s1 = 1" "clock s1 = 0"
    by (simp_all add: s1_def)
  have r1: "run_timers 1000 s1 = s1"
    by (rule run_timers_None) (simp add: s1 next_due_def)
  have s: "timers s = [?c0]" "nextTimerId s = 1" "clock s = 1000"
    by (simp_all add: s_def r1 s1)
  have wf: "wf_timers s" by (simp add: wf_timers_def s)
  note n = logActivity_notification [OF wf, of "''art''" "''Paint''"]
  have a: "justLogged L = Some (''art'', ''Paint'')" using n by (simp add: L_def)
  have b: "timers L = [?c0, ?c1]" using n by (simp add: L_def s)
  have "\<forall>t. (\<forall>tm \<in> set (timers L). callback tm = ClearJustLogged \<longrightarrow> t < deadline tm) \<longrightarrow>
          justLogged (advance t (rerender True False L)) = Some (''art'', ''Paint'')"
    using n unfolding L_def by blast
  then have c: "justLogged (advance 1999 (rerender True False L)) = Some (''art'', ''Paint'')"
    by (simp add: b)
  have "\<forall>t. (\<exists>tm \<in> set (timers L). callback tm = ClearJustLogged \<and> deadline tm \<le> t) \<longrightarrow>
          justLogged (advance t (rerender True False L)) = None"
    using n unfolding L_def by blast
  then have d: "justLogged (advance 2000 (rerender True False L)) = None"
    by (simp add: b)
  show ?thesis
    using s(1) wf a b c d unfolding L_def s_def s1_def by blast
qed

lemma step_ClickOrbital:
  assumes "activeSlice s = Some a" "currentView s = 0" "a < length DEFAULT_CATEGORIES"
      and "k < length (orbs_of (orbitals s) (DEFAULT_CATEGORIES ! a))"
  shows "step (ClickOrbital k) s =
           rerender True False
             (logActivity (cat_id (DEFAULT_CATEGORIES ! a))
                (orbs_of (orbitals s) (DEFAULT_CATEGORIES ! a) ! k) s)"
  using assms by (simp add: step_def Let_def)

lemma default_orbs:
  "orbs_of default_orbitals (DEFAULT_CATEGORIES ! 0) = [''Track'', ''Invest'', ''Scale'']"
  "orbs_of default_orbitals (DEFAULT_CATEGORIES ! 4) = [''Paint'', ''Music'', ''Write'']"
  "cat_id (DEFAULT_CATEGORIES ! 0) = ''finance''" "cat_id (DEFAULT_CATEGORIES ! 4) = ''art''"
  by (simp_all add: orbs_of_def default_orbitals_def DEFAULT_CATEGORIES_def)

text \<open>
  C5 as stated fails on two activities logged one second apart: slice 0 held and its
  first orbital clicked at 500 ms, slice 4 held and its first orbital clicked at
  1500 ms. Both clear timers are pending after the second call, and the first one, due
  at 2500 ms, clears the second notification one second after it was shown.
\<close>

theorem earlier_timer_clears_newer_notification:
  "(let s3 = at_time 500 (ClickOrbital 0)
               (at_time 400 PointerUp (step (PointerDown 0) (mount None None 0)));
        s6 = at_time 1500 (ClickOrbital 0)
               (at_time 1000 PointerUp (at_time 600 (PointerDown 4) s3))
    in justLogged s3 = Some (''finance'', ''Track'') \<and>
       justLogged s6 = Some (''art'', ''Paint'') \<and> clock s6 = 1500 \<and>
       timers s6 = [\<lparr>tid = 1, deadline = 2500, callback = ClearJustLogged\<rparr>,
                    \<lparr>tid = 3, deadline = 3500, callback = ClearJustLogged\<rparr>] \<and>
       justLogged (advance 2500 s6) = None)"
proof -
  let ?lp0 = "\<lparr>tid = 0, deadline = 380, callback = LongPress 0 default_orbitals\<rparr>"
  let ?c1 = "\<lparr>tid = 1, deadline = 2500, callback = ClearJustLogged\<rparr>"
  let ?lp4 = "\<lparr>tid = 2, deadline = 980, callback = LongPress 4 default_orbitals\<rparr>"
  let ?c3 = "\<lparr>tid = 3, deadline = 3500, callback = ClearJustLogged\<rparr>"
  define s1 where "s1 = step (PointerDown 0) (mount None None 0)"
  define s2 where "s2 = at_time 400 PointerUp s1"
  define s3 where "s3 = at_time 500 (ClickOrbital 0) s2"
  define s4 where "s4 = at_time 600 (PointerDown 4) s3"
  define s5 where "s5 = at_time 1000 PointerUp s4"
  define s6 where "s6 = at_time 1500 (ClickOrbital 0) s5"
  have s1: "timers s1 = [?lp0]" "currentView s1 = 0" "clock s1 = 0" "nextTimerId s1 = 1"
      "orbitals s1 = default_orbitals" "longPressTimer s1 = Some 0"
    by (simp_all add: s1_def step_PointerDown)
  have n1: "next_due 400 (timers s1) = Some ?lp0" by (simp add: s1 next_due_def)
  have r1: "run_timers 400 s1 = fire ?lp0 s1"
    unfolding run_timers_Some [OF n1]
    by (rule run_timers_None) (simp add: timers_fire s1 next_due_def)
  have s2: "timers s2 = []" "currentView s2 = 0" "clock s2 = 400" "nextTimerId s2 = 1"
      "orbitals s2 = default_orbitals" "activeSlice s2 = Some 0"
    by (simp_all add: s2_def at_time_def step_def r1 s1 timers_fire activeSlice_fire)
  have r2: "run_timers 500 s2 = s2"
    by (rule run_timers_None) (simp add: s2 next_due_def)
  have e3: "s3 = rerender True False (logActivity ''finance'' ''Track'' (advance 500 s2))"
    unfolding s3_def at_time_def
    using step_ClickOrbital [of "advance 500 s2" 0 0] by (simp add: r2 s2 default_orbs)
  have s3: "timers s3 = [?c1]" "currentView s3 = 0" "clock s3 = 500" "nextTimerId s3 = 2"
      "orbitals s3 = default_orbitals" "justLogged s3 = Some (''finance'', ''Track'')"
    by (simp_all add: e3 r2 s2)
  have r3: "run_timers 600 s3 = s3"
    by (rule run_timers_None) (simp add: s3 next_due_def)
  have s4: "timers s4 = [?c1, ?lp4]" "currentView s4 = 0" "nextTimerId s4 = 3" "clock s4 = 600"
      "orbitals s4 = default_orbitals" "justLogged s4 = Some (''finance'', ''Track'')"
      "longPressTimer s4 = Some 2"
    by (simp_all add: s4_def at_time_def step_PointerDown r3 s3)
  have n4: "next_due 1000 (timers s4) = Some ?lp4" by (simp add: s4 next_due_def)
  have r4: "run_timers 1000 s4 = fire ?lp4 s4"
    unfolding run_timers_Some [OF n4]
    by (rule run_timers_None) (simp add: timers_fire s4 next_due_def)
  have s5: "timers s5 = [?c1]" "currentView s5 = 0" "clock s5 = 1000" "nextTimerId s5 = 3"
      "orbitals s5 = default_orbitals" "activeSlice s5 = Some 4"
    by (simp_all add: s5_def at_time_def step_def r4 s4 timers_fire activeSlice_fire)
  have r5: "run_timers 1500 s5 = s5"
    by (rule run_timers_None) (simp add: s5 next_due_def)
  have e6: "s6 = rerender True False (logActivity ''art'' ''Paint'' (advance 1500 s5))"
    unfolding s6_def at_time_def
    using step_ClickOrbital [of "advance 1500 s5" 4 0] by (simp add: r5 s5 default_orbs)
  have s6: "timers s6 = [?c1, ?c3]" "clock s6 = 1500" "justLogged s6 = Some (''art'', ''Paint'')"
    by (simp_all add: e6 r5 s5)
  have "justLogged (run_timers 2500 s6) = None"
    by (rule clear_fires [of ?c1]) (simp_all add: s6)
  then have c: "justLogged (advance 2500 s6) = None" by simp
  show ?thesis
    using s3(6) s6 c by (simp add: Let_def s1_def s2_def s3_def s4_def s5_def s6_def)
qed

section \<open>The orbital positions\<close>

lemma length_positions [simp]: "length (positions idx orbs) = length orbs"
  by (simp add: positions_def)

lemma nth_positions:
  "i < length orbs \<Longrightarrow> positions idx orbs ! i = orbitalPosition idx (length orbs) i"
  by (simp add: positions_def)

lemma length_spread: "length (spread n) = (if n = 3 then 3 else if n = 4 then 4 else 5)"
  by (simp add: spread_def)

lemma radius:
  "orbitalPosition idx n i = Some (x, y) \<Longrightarrow> x\<^sup>2 + y\<^sup>2 = 115\<^sup>2"
proof -
  assume a: "orbitalPosition idx n i = Some (x, y)"
  then obtain r where "x = cos r * 115" "y = sin r * 115"
    by (auto simp: orbitalPosition_def Let_def split: if_splits)
  then have "x\<^sup>2 + y\<^sup>2 = (cos r * 115)\<^sup>2 + (sin r * 115)\<^sup>2" by simp
  also have "\<dots> = ((cos r)\<^sup>2 + (sin r)\<^sup>2) * 115\<^sup>2"
    unfolding power_mult_distrib by (rule distrib_right [symmetric])
  also have "\<dots> = 115\<^sup>2" by (simp only: sin_cos_squared_add2 mult_1)
  finally show ?thesis .
qed

lemma spread_symmetric:
  assumes "n = 3 \<or> n = 4 \<or> n = 5" "i < n"
  shows "spread n ! (n - 1 - i) = - spread n ! i"
proof -
  have "i = 0 \<or> i = 1 \<or> i = 2 \<or> i = 3 \<or> i = 4" using assms by auto
  then show ?thesis using assms by (auto simp: spread_def)
qed

lemma orbitalPositions_longPressFired:
  "idx < length DEFAULT_CATEGORIES \<Longrightarrow>
   orbitalPositions (longPressFired idx cfg s) =
     positions idx (orbs_of cfg (DEFAULT_CATEGORIES ! idx))"
  by (simp add: longPressFired_def Let_def)

text \<open>
  Claim C6 as the code has it. When the long-press timer fires for a slice of the pie,
  the orbital positions are one entry for each of the category's \<open>N\<close> orbitals. The
  angular offsets are \<open>[-38, 0, 38]\<close> for three orbitals, \<open>[-55, -18, 18, 55]\<close> for four
  and \<open>[-50, -25, 0, 25, 50]\<close> for every other count, the \<open>i\<close>-th orbital taking the
  \<open>i\<close>-th offset. An orbital with an offset is placed at
  \<open>(115 cos a, 115 sin a)\<close> for the angle \<open>a\<close> of the slice's middle plus its offset
  minus 90 degrees, a point at distance 115 from the centre; an orbital beyond the
  fifth has none. For three, four and five orbitals every orbital has a position and
  the offsets are symmetric about the slice's middle angle.
\<close>

theorem orbital_positions_layout:
  "(idx < length DEFAULT_CATEGORIES \<longrightarrow>
      orbitalPositions (longPressFired idx cfg s) =
        positions idx (orbs_of cfg (DEFAULT_CATEGORIES ! idx)) \<and>
      activeSlice (longPressFired idx cfg s) = Some idx) \<and>
   length (positions idx orbs) = length orbs \<and>
   spread 3 = [- 38, 0, 38] \<and> spread 4 = [- 55, - 18, 18, 55] \<and>
   spread 5 = [- 50, - 25, 0, 25, 50] \<and>
   (length orbs \<noteq> 3 \<and> length orbs \<noteq> 4 \<longrightarrow> spread (length orbs) = [- 50, - 25, 0, 25, 50]) \<and>
   (\<forall>i < length orbs.
      positions idx orbs ! i =
        (if i < length (spread (length orbs))
         then Some (cos ((real idx * 45 + 22.5 + spread (length orbs) ! i - 90) * pi / 180) * 115,
                    sin ((real idx * 45 + 22.5 + spread (length orbs) ! i - 90) * pi / 180) * 115)
         else None)) \<and>
   (\<forall>i < length orbs. \<forall>x y. positions idx orbs ! i = Some (x, y) \<longrightarrow> x\<^sup>2 + y\<^sup>2 = 115\<^sup>2) \<and>
   (length orbs = 3 \<or> length orbs = 4 \<or> length orbs = 5 \<longrightarrow>
      (\<forall>i < length orbs. positions idx orbs ! i \<noteq> None \<and>
         spread (length orbs) ! (length orbs - 1 - i) = - spread (length orbs) ! i)) \<and>
   (\<forall>i < length orbs. 5 \<le> i \<longrightarrow> positions idx orbs ! i = None)"
proof (intro conjI allI impI)
  show "orbitalPositions (longPressFired idx cfg s) =
        positions idx (orbs_of cfg (DEFAULT_CATEGORIES ! idx))"
    if "idx < length DEFAULT_CATEGORIES"
    using that by (rule orbitalPositions_longPressFired)
  show "activeSlice (longPressFired idx cfg s) = Some idx"
    if "idx < length DEFAULT_CATEGORIES"
    using that by simp
  show "length (positions idx orbs) = length orbs" by simp
  show "spread 3 = [- 38, 0, 38]" "spread 4 = [- 55, - 18, 18, 55]"
    "spread 5 = [- 50, - 25, 0, 25, 50]"
    by (simp_all add: spread_def)
  show "spread (length orbs) = [- 50, - 25, 0, 25, 50]"
    if "length orbs \<noteq> 3 \<and> length orbs \<noteq> 4"
    using that by (simp add: spread_def)
  show "positions idx orbs ! i =
        (if i < length (spread (length orbs))
         then Some (cos ((real idx * 45 + 22.5 + spread (length orbs) ! i - 90) * pi / 180) * 115,
                    sin ((real idx * 45 + 22.5 + spread (length orbs) ! i - 90) * pi / 180) * 115)
         else None)" if "i < length orbs" for i
    using that by (simp add: nth_positions orbitalPosition_def Let_def)
  show "x\<^sup>2 + y\<^sup>2 = 115\<^sup>2" if "i < length orbs" "positions idx orbs ! i = Some (x, y)" for i x y
    using that radius [of idx "length orbs" i x y] by (simp add: nth_positions)
  show "positions idx orbs ! i \<noteq> None"
    if "length orbs = 3 \<or> length orbs = 4 \<or> length orbs = 5" "i < length orbs" for i
    using that by (auto simp: nth_positions orbitalPosition_def Let_def length_spread)
  show "spread (length orbs) ! (length orbs - 1 - i) = - spread (length orbs) ! i"
    if "length orbs = 3 \<or> length orbs = 4 \<or> length orbs = 5" "i < length orbs" for i
    using that by (rule spread_symmetric)
  show "positions idx orbs ! i = None" if "i < length orbs" "5 \<le> i" for i
    using that by (simp add: nth_positions orbitalPosition_def Let_def length_spread)
qed

theorem orbital_positions_layout_witness:
  "length (positions 0 [''Track'', ''Invest'', ''Scale'']) = 3 \<and>
   positions 0 [''Track'', ''Invest'', ''Scale''] ! 1 =
     Some (cos ((22.5 + 0 - 90) * pi / 180) * 115, sin ((22.5 + 0 - 90) * pi / 180) * 115) \<and>
   (cos ((22.5 + 0 - 90) * pi / 180) * 115)\<^sup>2 + (sin ((22.5 + 0 - 90) * pi / 180) * 115)\<^sup>2 =
     115\<^sup>2 \<and>
   positions 0 [''Track'', ''Invest'', ''Scale''] ! 1 \<noteq> None"
proof -
  let ?o = "[''Track'', ''Invest'', ''Scale'']"
  note t = orbital_positions_layout [of 0 default_orbitals "mount None None 0" ?o]
  have i: "1 < length ?o" and n: "length ?o = 3 \<or> length ?o = 4 \<or> length ?o = 5"
    by simp_all
  have a: "length (positions 0 ?o) = 3" using t by simp
  have "\<forall>i < length ?o.
      positions 0 ?o ! i =
        (if i < length (spread (length ?o))
         then Some (cos ((real 0 * 45 + 22.5 + spread (length ?o) ! i - 90) * pi / 180) * 115,
                    sin ((real 0 * 45 + 22.5 + spread (length ?o) ! i - 90) * pi / 180) * 115)
         else None)"
    using t by blast
  then have b: "positions 0 ?o ! 1 =
     Some (cos ((22.5 + 0 - 90) * pi / 180) * 115, sin ((22.5 + 0 - 90) * pi / 180) * 115)"
    using i by (simp add: spread_def)
  have "\<forall>i < length ?o. \<forall>x y. positions 0 ?o ! i = Some (x, y) \<longrightarrow> x\<^sup>2 + y\<^sup>2 = 115\<^sup>2"
    using t by blast
  then have c: "(cos ((22.5 + 0 - 90) * pi / 180) * 115)\<^sup>2 +
                (sin ((22.5 + 0 - 90) * pi / 180) * 115)\<^sup>2 = 115\<^sup>2"
    using i b by blast
  have "\<forall>i < length ?o. positions 0 ?o ! i \<noteq> None \<and>
         spread (length ?o) ! (length ?o - 1 - i) = - spread (length ?o) ! i"
    using t n by blast
  then have d: "positions 0 ?o ! 1 \<noteq> None" using i by blast
  show ?thesis using a b c d by blast
qed

text \<open>
  C6 as stated, with an even spread for every other count, fails for two and for six
  orbitals: two orbitals take the offsets -50 and -25, both to one side of the middle
  of the slice, and the sixth of six orbitals has no position.
\<close>

theorem other_counts_use_five_table_counterexample:
  "positions 0 [''a'', ''b''] =
     [Some (cos ((22.5 + (- 50) - 90) * pi / 180) * 115,
            sin ((22.5 + (- 50) - 90) * pi / 180) * 115),
      Some (cos ((22.5 + (- 25) - 90) * pi / 180) * 115,
            sin ((22.5 + (- 25) - 90) * pi / 180) * 115)] \<and>
   length (positions 0 [''a'', ''b'', ''c'', ''d'', ''e'', ''f'']) = 6 \<and>
   positions 0 [''a'', ''b'', ''c'', ''d'', ''e'', ''f''] ! 5 = None"
  by (simp add: positions_def orbitalPosition_def spread_def Let_def upt_rec)

section \<open>A click after midnight\<close>

lemma todayStr_setTimeout [simp]: "todayStr (setTimeout cb d s) = todayStr s"
  by (simp add: setTimeout_def)

lemma todayStr_clearTimeout [simp]: "todayStr (clearTimeout r s) = todayStr s"
  by (cases r) (simp_all add: clearTimeout_def)

lemma todayStr_handlers [simp]:
  "todayStr (handlePointerDown idx s) = todayStr s"
  "todayStr (handlePointerUp s) = todayStr s"
  "todayStr (logActivity c orb s) = todayStr s"
  "todayStr (advance t s) = todayStr (run_timers t s)"
  by (simp_all add: handlePointerDown_def handlePointerUp_def logActivity_def advance_def
      Let_def)




end
